theory Spec2Isabelle
  imports Main
begin

section \<open>Data model\<close>

subsection \<open>Errors\<close>

text \<open>
  Every failure of the source is a thrown JavaScript exception. \<open>Error msg\<close> is
  \<^verbatim>\<open>new Error(msg)\<close> as the repository's own code throws it, \<open>SyntaxError msg\<close> is what
  \<^verbatim>\<open>JSON.parse\<close> throws on text that is not JSON (the message is the engine's), and
  \<open>SdkError msg\<close> is anything a provider SDK call throws or rejects with.
\<close>

datatype JsError = Error string | SyntaxError string | SdkError string

subsection \<open>Source schemas (LLMChatClient.ts)\<close>

text \<open>
  The value of the \<^verbatim>\<open>type\<close> key of a schema object: absent, one string, or (as
  \<^verbatim>\<open>IOpenAISchemaBase\<close> allows) an array of strings.
\<close>

datatype TypeTag = NoType | TypeName string | TypeNames "string list"

text \<open>
  A schema object of type \<^verbatim>\<open>IOpenAIJSONSchema | IGeminiJSONSchema\<close>, reduced to the keys
  the translator reads (\<^verbatim>\<open>type\<close>, \<^verbatim>\<open>properties\<close>, \<^verbatim>\<open>items\<close>, \<^verbatim>\<open>required\<close>) and the
  \<^verbatim>\<open>anyOf\<close> key of the union interface. \<open>None\<close> is an absent key. An object of
  \<^verbatim>\<open>Record<string, schema>\<close> is the list of its own properties in the order they were
  created (insertion order); in a JavaScript object the keys of that list are distinct.
  Present \<^verbatim>\<open>properties\<close>, \<^verbatim>\<open>items\<close> and \<^verbatim>\<open>required\<close> are objects or arrays, hence truthy.
  Values that are not of these types (a \<^verbatim>\<open>null\<close> schema, \<^verbatim>\<open>properties\<close> that is a number)
  are outside the model.
\<close>

datatype JSONSchema =
  Schema (type: TypeTag)
         (properties: "(string \<times> JSONSchema) list option")
         (items: "JSONSchema option")
         (required: "string list option")
         (anyOf: "JSONSchema list option")

subsection \<open>Target schemas (GeminiClient.ts)\<close>

text \<open>
  The members of the enum \<^verbatim>\<open>SchemaType\<close> of the Gemini SDK, which the repository
  imports; \<^verbatim>\<open>GeminiSchemaType\<close> in LLMChatClient.ts lists the same six kinds.
\<close>

datatype SchemaType = STRING | NUMBER | INTEGER | BOOLEAN | ARRAY | OBJECT

text \<open>
  The three object literals the translator returns:
  \<^verbatim>\<open>{type, properties, required}\<close>, \<^verbatim>\<open>{type, items}\<close> and \<^verbatim>\<open>{type}\<close>.
\<close>

datatype GeminiSchema =
    ObjectSchema SchemaType "(string \<times> GeminiSchema) list" "string list"
  | ArraySchema SchemaType GeminiSchema
  | TypeSchema SchemaType

subsection \<open>Messages, configuration, response envelope (LLMChatClient.ts)\<close>

datatype Role = system | user | assistant

record Message =
  role :: Role
  content :: string

record StructuredOutputConfig =
  schema :: JSONSchema
  schemaName :: string
  schemaDescription :: "string option"

record ('d, 'r) StructuredOutputResponse =
  data :: 'd
  rawResponse :: 'r

subsection \<open>Provider payloads\<close>

text \<open>
  The argument of \<^verbatim>\<open>chat.completions.create\<close>. \<open>JsonSchemaFormat name schema strict\<close> is
  \<^verbatim>\<open>{type: 'json_schema', json_schema: {name, schema, strict}}\<close>.
\<close>

datatype ResponseFormat = JsonSchemaFormat string JSONSchema bool

record ChatCompletionCreateParams =
  model :: string
  messages :: "Message list"
  response_format :: ResponseFormat

text \<open>
  The part of an OpenAI completion the adapter reads: \<^verbatim>\<open>choices[i].message\<close> with its
  \<^verbatim>\<open>content\<close> and \<^verbatim>\<open>refusal\<close>, each a string or null. The rest of the payload is the
  extension of the record.
\<close>

datatype ChatCompletionMessage =
  ChatCompletionMessage (message_content: "string option") (message_refusal: "string option")

datatype Choice = Choice (message: "ChatCompletionMessage option")

record ChatCompletion =
  choices :: "Choice list"

text \<open>
  The argument of \<^verbatim>\<open>getGenerativeModel\<close>:
  \<^verbatim>\<open>{model, generationConfig: {responseMimeType, responseSchema}}\<close>.
\<close>

record GenerationConfig =
  responseMimeType :: string
  responseSchema :: GeminiSchema

record ModelParams =
  gemini_model :: string
  generationConfig :: GenerationConfig

section \<open>JavaScript primitives the source uses\<close>

text \<open>
  The order in which JavaScript reports the own string keys of an object: first the keys
  that are array indices (the decimal numerals of the integers from 0 to \<open>2\<^sup>3\<^sup>2 - 2\<close>,
  with no sign and no leading zero) in ascending numeric order, then every other key in
  insertion order.
\<close>

definition digitValue :: "char \<Rightarrow> int option" where
  "digitValue c =
     map_of [(CHR ''0'', 0), (CHR ''1'', 1), (CHR ''2'', 2), (CHR ''3'', 3), (CHR ''4'', 4),
             (CHR ''5'', 5), (CHR ''6'', 6), (CHR ''7'', 7), (CHR ''8'', 8), (CHR ''9'', 9)] c"

fun decimalValue :: "int \<Rightarrow> string \<Rightarrow> int option" where
  "decimalValue n [] = Some n"
| "decimalValue n (c # cs) =
     (case digitValue c of None \<Rightarrow> None | Some d \<Rightarrow> decimalValue (10 * n + d) cs)"

definition arrayIndex :: "string \<Rightarrow> int option" where
  "arrayIndex key =
     (if key = [] \<or> (hd key = CHR ''0'' \<and> tl key \<noteq> []) then None
      else (case decimalValue 0 key of
              None \<Rightarrow> None
            | Some n \<Rightarrow> if n \<le> 4294967294 then Some n else None))"

definition indexOrder :: "string \<times> 'v \<Rightarrow> int" where
  "indexOrder e = (case arrayIndex (fst e) of None \<Rightarrow> 0 | Some n \<Rightarrow> n)"

text \<open>\<^verbatim>\<open>Object.entries(obj)\<close> for an object given by its properties in insertion order.\<close>

definition Object_entries :: "(string \<times> 'v) list \<Rightarrow> (string \<times> 'v) list" where
  "Object_entries ps =
     sort_key indexOrder (filter (\<lambda>e. arrayIndex (fst e) \<noteq> None) ps)
       @ filter (\<lambda>e. arrayIndex (fst e) = None) ps"

text \<open>
  \<^verbatim>\<open>obj[key] = v\<close> on an ordinary object. The key \<^verbatim>\<open>__proto__\<close> is the accessor of
  \<^verbatim>\<open>Object.prototype\<close>: the assignment of an object to it sets the prototype of \<^verbatim>\<open>obj\<close> and
  creates no property, so the own properties stay as they are (the prototype is not part of
  the model). For any other key, an existing property keeps its place and a new one is
  created last.
\<close>

fun defineOwnProperty :: "string \<Rightarrow> 'v \<Rightarrow> (string \<times> 'v) list \<Rightarrow> (string \<times> 'v) list" where
  "defineOwnProperty key v [] = [(key, v)]"
| "defineOwnProperty key v (p # ps) =
     (if fst p = key then (key, v) # ps else p # defineOwnProperty key v ps)"

definition assignProperty :: "string \<Rightarrow> 'v \<Rightarrow> (string \<times> 'v) list \<Rightarrow> (string \<times> 'v) list" where
  "assignProperty key v ps =
     (if key = ''__proto__'' then ps else defineOwnProperty key v ps)"

text \<open>\<^verbatim>\<open>Array.prototype.join\<close> on an array of strings.\<close>

fun join :: "string \<Rightarrow> string list \<Rightarrow> string" where
  "join sep [] = []"
| "join sep [x] = x"
| "join sep (x # y # ys) = x @ sep @ join sep (y # ys)"

text \<open>
  What a template literal makes of the \<^verbatim>\<open>type\<close> key: \<^verbatim>\<open>undefined\<close> when absent, the
  string itself, or the elements of an array joined by commas.
\<close>

fun typeToString :: "TypeTag \<Rightarrow> string" where
  "typeToString NoType = ''undefined''"
| "typeToString (TypeName s) = s"
| "typeToString (TypeNames ss) = join '','' ss"

text \<open>Truthiness of a value of type \<^verbatim>\<open>string | null\<close>.\<close>

fun truthy :: "string option \<Rightarrow> bool" where
  "truthy None = False"
| "truthy (Some s) = (s \<noteq> [])"

text \<open>
  \<^verbatim>\<open>String.prototype.toUpperCase\<close>, which the source applies to role names only, so on
  the letters a to z.
\<close>

definition toUpperChar :: "char \<Rightarrow> char" where
  "toUpperChar c =
     (if 97 \<le> (of_char c :: nat) \<and> (of_char c :: nat) \<le> 122
      then char_of ((of_char c :: nat) - 32) else c)"

definition toUpperCase :: "string \<Rightarrow> string" where
  "toUpperCase s = map toUpperChar s"

fun roleString :: "Role \<Rightarrow> string" where
  "roleString system = ''system''"
| "roleString user = ''user''"
| "roleString assistant = ''assistant''"

section \<open>The schema translator (GeminiClient.jsonSchemaToGeminiSchema)\<close>

text \<open>
  \<open>translateEntries\<close> is the body of the \<^verbatim>\<open>for ... of Object.entries(jsonSchema.properties)\<close> loop;
  its second argument is the object \<^verbatim>\<open>properties\<close> built so far. A \<^verbatim>\<open>throw\<close> in a
  recursive call ends the whole call.
\<close>

function jsonSchemaToGeminiSchema :: "JSONSchema \<Rightarrow> JsError + GeminiSchema"
  and translateEntries ::
    "(string \<times> JSONSchema) list \<Rightarrow> (string \<times> GeminiSchema) list
       \<Rightarrow> JsError + (string \<times> GeminiSchema) list"
where
  "jsonSchemaToGeminiSchema jsonSchema =
     (if type jsonSchema = TypeName ''object'' \<and> properties jsonSchema \<noteq> None then
        (case translateEntries (Object_entries (the (properties jsonSchema))) [] of
           Inl e \<Rightarrow> Inl e
         | Inr props \<Rightarrow>
             Inr (ObjectSchema OBJECT props
                    (case required jsonSchema of None \<Rightarrow> [] | Some r \<Rightarrow> r)))
      else if type jsonSchema = TypeName ''array'' \<and> items jsonSchema \<noteq> None then
        (case jsonSchemaToGeminiSchema (the (items jsonSchema)) of
           Inl e \<Rightarrow> Inl e
         | Inr g \<Rightarrow> Inr (ArraySchema ARRAY g))
      else if type jsonSchema = TypeName ''string'' then Inr (TypeSchema STRING)
      else if type jsonSchema = TypeName ''number'' \<or> type jsonSchema = TypeName ''integer''
        then Inr (TypeSchema NUMBER)
      else if type jsonSchema = TypeName ''boolean'' then Inr (TypeSchema BOOLEAN)
      else Inl (Error (''Unsupported JSON Schema type: '' @ typeToString (type jsonSchema))))"
| "translateEntries [] props = Inr props"
| "translateEntries ((key, v) # entries) props =
     (case jsonSchemaToGeminiSchema v of
        Inl e \<Rightarrow> Inl e
      | Inr g \<Rightarrow> translateEntries entries (assignProperty key g props))"
  by pat_completeness auto
termination
proof (relation "measure (\<lambda>x. case x of
            Inl s \<Rightarrow> 2 * size s
          | Inr (ps, acc) \<Rightarrow> 2 * size_list (size_prod (\<lambda>_. 0) size) ps + 1)")
  show "wf (measure (\<lambda>x. case x of
            Inl s \<Rightarrow> 2 * size s
          | Inr (ps, acc) \<Rightarrow> 2 * size_list (size_prod (\<lambda>_. 0) size) ps + 1))"
    by simp
next
  fix jsonSchema :: JSONSchema
  let ?sz = "size_list (size_prod (\<lambda>_. 0) size) :: (string \<times> JSONSchema) list \<Rightarrow> nat"
  have ins: "?sz (insort_key k e es) = ?sz (e # es)"
    for k :: "string \<times> JSONSchema \<Rightarrow> int" and e es
    by (induction es) auto
  have srt: "?sz (sort_key k es) = ?sz es"
    for k :: "string \<times> JSONSchema \<Rightarrow> int" and es
    by (induction es) (auto simp: ins)
  have flt: "?sz (filter P es) + ?sz (filter (\<lambda>e. \<not> P e) es) = ?sz es" for P es
    by (induction es) auto
  have entries: "?sz (Object_entries es) = ?sz es" for es
    using flt [of "\<lambda>e. arrayIndex (fst e) \<noteq> None" es]
    by (simp add: Object_entries_def srt)
  assume "type jsonSchema = TypeName ''object'' \<and> properties jsonSchema \<noteq> None"
  then show "(Inr (Object_entries (the (properties jsonSchema)), []), Inl jsonSchema)
      \<in> measure (\<lambda>x. case x of
            Inl s \<Rightarrow> 2 * size s
          | Inr (ps, acc) \<Rightarrow> 2 * size_list (size_prod (\<lambda>_. 0) size) ps + 1)"
    by (cases jsonSchema) (auto simp: entries)
next
  fix jsonSchema :: JSONSchema
  assume "type jsonSchema = TypeName ''array'' \<and> items jsonSchema \<noteq> None"
  then show "(Inl (the (items jsonSchema)), Inl jsonSchema)
      \<in> measure (\<lambda>x. case x of
            Inl s \<Rightarrow> 2 * size s
          | Inr (ps, acc) \<Rightarrow> 2 * size_list (size_prod (\<lambda>_. 0) size) ps + 1)"
    by (cases jsonSchema) auto
qed simp_all

declare jsonSchemaToGeminiSchema.simps [simp del]

section \<open>The provider adapters\<close>

text \<open>
  The adapters are asynchronous methods around one call of a provider SDK. The SDK and
  \<^verbatim>\<open>JSON.parse\<close> are not code of the repository; they are parameters of the model:
  \<^item> \<open>create\<close> is \<^verbatim>\<open>client.chat.completions.create\<close>: it returns a completion or throws;
  \<^item> \<open>generateContent\<close> is \<^verbatim>\<open>getGenerativeModel(params).generateContent(prompt)\<close>;
  \<^item> \<open>response_text\<close> is \<^verbatim>\<open>result.response.text()\<close>, which returns the text or throws;
  \<^item> \<open>JSON_parse\<close> returns the decoded value, or \<open>Inl msg\<close> for a thrown
    \<^verbatim>\<open>SyntaxError\<close> with the engine's message \<open>msg\<close>.
  \<open>this_model\<close> and \<open>this_modelName\<close> are the fields of the client objects.
\<close>

subsection \<open>ChatGPTClient.chatWithStructuredOutput\<close>

definition openAIMessages :: "'a Message_scheme list \<Rightarrow> Message list" where
  "openAIMessages msgs = map (\<lambda>msg. \<lparr>role = role msg, content = content msg\<rparr>) msgs"

definition ChatGPTClient_request ::
  "string \<Rightarrow> 'a Message_scheme list \<Rightarrow> 'b StructuredOutputConfig_scheme
     \<Rightarrow> ChatCompletionCreateParams" where
  "ChatGPTClient_request this_model msgs config =
     \<lparr>model = this_model,
      messages = openAIMessages msgs,
      response_format = JsonSchemaFormat (schemaName config) (schema config) True\<rparr>"

text \<open>\<^verbatim>\<open>completion.choices[0]?.message\<close>\<close>

definition firstMessage :: "'c ChatCompletion_scheme \<Rightarrow> ChatCompletionMessage option" where
  "firstMessage completion = (case choices completion of [] \<Rightarrow> None | c # _ \<Rightarrow> message c)"

definition ChatGPTClient_chatWithStructuredOutput ::
  "(ChatCompletionCreateParams \<Rightarrow> JsError + 'c ChatCompletion_scheme)
     \<Rightarrow> (string \<Rightarrow> string + 'd) \<Rightarrow> string
     \<Rightarrow> 'a Message_scheme list \<Rightarrow> 'b StructuredOutputConfig_scheme
     \<Rightarrow> JsError + ('d, 'c ChatCompletion_scheme) StructuredOutputResponse" where
  "ChatGPTClient_chatWithStructuredOutput create JSON_parse this_model msgs config =
     (case create (ChatGPTClient_request this_model msgs config) of
        Inl e \<Rightarrow> Inl e
      | Inr completion \<Rightarrow>
          (case firstMessage completion of
             None \<Rightarrow> Inl (Error ''No response from OpenAI'')
           | Some m \<Rightarrow>
               if truthy (message_refusal m) then
                 Inl (Error (''OpenAI refused to respond: '' @ the (message_refusal m)))
               else if \<not> truthy (message_content m) then
                 Inl (Error ''No content in OpenAI response'')
               else
                 (case JSON_parse (the (message_content m)) of
                    Inl msg \<Rightarrow> Inl (SyntaxError msg)
                  | Inr parsedJson \<Rightarrow> Inr \<lparr>data = parsedJson, rawResponse = completion\<rparr>)))"

subsection \<open>GeminiClient.chatWithStructuredOutput\<close>

definition GeminiClient_prompt :: "'a Message_scheme list \<Rightarrow> string" where
  "GeminiClient_prompt msgs =
     join ''\<newline>\<newline>''
       (map (\<lambda>msg. toUpperCase (roleString (role msg)) @ '': '' @ content msg) msgs)"

text \<open>
  What the adapter hands to the SDK: the argument of \<^verbatim>\<open>getGenerativeModel\<close> and the
  prompt. The translator runs first, and its \<^verbatim>\<open>throw\<close> ends the call before any request.
\<close>

definition GeminiClient_request ::
  "string \<Rightarrow> 'a Message_scheme list \<Rightarrow> 'b StructuredOutputConfig_scheme
     \<Rightarrow> JsError + ModelParams \<times> string" where
  "GeminiClient_request this_modelName msgs config =
     (case jsonSchemaToGeminiSchema (schema config) of
        Inl e \<Rightarrow> Inl e
      | Inr g \<Rightarrow>
          Inr (\<lparr>gemini_model = this_modelName,
                generationConfig =
                  \<lparr>responseMimeType = ''application/json'', responseSchema = g\<rparr>\<rparr>,
               GeminiClient_prompt msgs))"

definition GeminiClient_chatWithStructuredOutput ::
  "(ModelParams \<Rightarrow> string \<Rightarrow> JsError + 'r) \<Rightarrow> ('r \<Rightarrow> JsError + string)
     \<Rightarrow> (string \<Rightarrow> string + 'd) \<Rightarrow> string
     \<Rightarrow> 'a Message_scheme list \<Rightarrow> 'b StructuredOutputConfig_scheme
     \<Rightarrow> JsError + ('d, 'r) StructuredOutputResponse" where
  "GeminiClient_chatWithStructuredOutput generateContent response_text JSON_parse
       this_modelName msgs config =
     (case GeminiClient_request this_modelName msgs config of
        Inl e \<Rightarrow> Inl e
      | Inr (params, prompt) \<Rightarrow>
          (case generateContent params prompt of
             Inl e \<Rightarrow> Inl e
           | Inr result \<Rightarrow>
               (case response_text result of
                  Inl e \<Rightarrow> Inl e
                | Inr text \<Rightarrow>
                    (case JSON_parse text of
                       Inl msg \<Rightarrow>
                         Inl (Error (''Failed to parse Gemini JSON response: '' @ text))
                     | Inr parsedData \<Rightarrow>
                         Inr \<lparr>data = parsedData, rawResponse = result\<rparr>))))"

section \<open>Notions the properties are stated with\<close>

subsection \<open>Schema trees of the kinds the translator knows\<close>

definition recognizedKinds :: "TypeTag set" where
  "recognizedKinds = {TypeName ''object'', TypeName ''array'', TypeName ''string'',
     TypeName ''number'', TypeName ''integer'', TypeName ''boolean''}"

text \<open>
  A tree of string, number or integer, boolean, array and object nodes and no union node:
  every object node has its \<^verbatim>\<open>properties\<close> (with distinct keys, as a JavaScript object
  has, and none of them \<^verbatim>\<open>__proto__\<close>), every array node has its \<^verbatim>\<open>items\<close>, and no node
  has an \<^verbatim>\<open>anyOf\<close>.
\<close>

function canonical :: "JSONSchema \<Rightarrow> bool"
  and canonicalEntries :: "(string \<times> JSONSchema) list \<Rightarrow> bool"
where
  "canonical s =
     (anyOf s = None \<and>
      (if type s = TypeName ''object'' \<and> properties s \<noteq> None then
         distinct (map fst (the (properties s)))
           \<and> ''__proto__'' \<notin> set (map fst (the (properties s)))
           \<and> canonicalEntries (the (properties s))
       else if type s = TypeName ''array'' \<and> items s \<noteq> None then
         canonical (the (items s))
       else type s \<in> {TypeName ''string'', TypeName ''number'', TypeName ''integer'',
                       TypeName ''boolean''}))"
| "canonicalEntries [] = True"
| "canonicalEntries ((key, v) # entries) = (canonical v \<and> canonicalEntries entries)"
  by pat_completeness auto
termination
  apply (relation "measure (\<lambda>x. case x of
            Inl s \<Rightarrow> 2 * size s
          | Inr ps \<Rightarrow> 2 * size_list (size_prod (\<lambda>_. 0) size) ps + 1)")
  subgoal by simp
  subgoal for s by (cases s) auto
  subgoal for s by (cases s) auto
  subgoal by simp
  subgoal by simp
  done

declare canonical.simps(1) [simp del]

subsection \<open>Nesting depth\<close>

function schemaDepth :: "JSONSchema \<Rightarrow> nat"
  and entriesDepth :: "(string \<times> JSONSchema) list \<Rightarrow> nat"
where
  "schemaDepth s =
     (if type s = TypeName ''object'' \<and> properties s \<noteq> None then
        Suc (entriesDepth (the (properties s)))
      else if type s = TypeName ''array'' \<and> items s \<noteq> None then
        Suc (schemaDepth (the (items s)))
      else 1)"
| "entriesDepth [] = 0"
| "entriesDepth ((key, v) # entries) = max (schemaDepth v) (entriesDepth entries)"
  by pat_completeness auto
termination
  apply (relation "measure (\<lambda>x. case x of
            Inl s \<Rightarrow> 2 * size s
          | Inr ps \<Rightarrow> 2 * size_list (size_prod (\<lambda>_. 0) size) ps + 1)")
  subgoal by simp
  subgoal for s by (cases s) auto
  subgoal for s by (cases s) auto
  subgoal by simp
  subgoal by simp
  done

declare schemaDepth.simps(1) [simp del]

fun geminiDepth :: "GeminiSchema \<Rightarrow> nat"
  and geminiEntriesDepth :: "(string \<times> GeminiSchema) list \<Rightarrow> nat"
where
  "geminiDepth (ObjectSchema t props req) = Suc (geminiEntriesDepth props)"
| "geminiDepth (ArraySchema t g) = Suc (geminiDepth g)"
| "geminiDepth (TypeSchema t) = 1"
| "geminiEntriesDepth [] = 0"
| "geminiEntriesDepth ((key, g) # entries) = max (geminiDepth g) (geminiEntriesDepth entries)"

subsection \<open>Nodes by path\<close>

text \<open>
  A path names a node of a tree: \<open>Property key\<close> steps into the property \<open>key\<close> of an
  object node, \<open>Items\<close> into the item schema of an array node.
\<close>

datatype Step = Property string | Items

fun schemaAt :: "JSONSchema \<Rightarrow> Step list \<Rightarrow> JSONSchema option" where
  "schemaAt s [] = Some s"
| "schemaAt s (Property key # path) =
     (if type s = TypeName ''object'' then
        (case properties s of
           None \<Rightarrow> None
         | Some ps \<Rightarrow> (case map_of ps key of None \<Rightarrow> None | Some v \<Rightarrow> schemaAt v path))
      else None)"
| "schemaAt s (Items # path) =
     (if type s = TypeName ''array'' then
        (case items s of None \<Rightarrow> None | Some v \<Rightarrow> schemaAt v path)
      else None)"

fun geminiAt :: "GeminiSchema \<Rightarrow> Step list \<Rightarrow> GeminiSchema option" where
  "geminiAt g [] = Some g"
| "geminiAt (ObjectSchema t props req) (Property key # path) =
     (case map_of props key of None \<Rightarrow> None | Some v \<Rightarrow> geminiAt v path)"
| "geminiAt (ArraySchema t g) (Items # path) = geminiAt g path"
| "geminiAt g (st # path) = None"

subsection \<open>What is read off a node\<close>

text \<open>The target kind of each source kind, as the branches of the translator pair them.\<close>

fun kindOf :: "TypeTag \<Rightarrow> SchemaType option" where
  "kindOf (TypeName n) =
     (if n = ''object'' then Some OBJECT
      else if n = ''array'' then Some ARRAY
      else if n = ''string'' then Some STRING
      else if n = ''number'' \<or> n = ''integer'' then Some NUMBER
      else if n = ''boolean'' then Some BOOLEAN
      else None)"
| "kindOf t = None"

fun geminiType :: "GeminiSchema \<Rightarrow> SchemaType" where
  "geminiType (ObjectSchema t props req) = t"
| "geminiType (ArraySchema t g) = t"
| "geminiType (TypeSchema t) = t"

fun geminiPropertyNames :: "GeminiSchema \<Rightarrow> string list" where
  "geminiPropertyNames (ObjectSchema t props req) = map fst props"
| "geminiPropertyNames g = []"

fun geminiItemType :: "GeminiSchema \<Rightarrow> SchemaType option" where
  "geminiItemType (ArraySchema t g) = Some (geminiType g)"
| "geminiItemType g = None"

text \<open>
  The properties of an object node in insertion order, their names in that order, and
  their names in the order \<^verbatim>\<open>Object.entries\<close> reports them.
\<close>

definition schemaProperties :: "JSONSchema \<Rightarrow> (string \<times> JSONSchema) list" where
  "schemaProperties s =
     (if type s = TypeName ''object'' then
        (case properties s of None \<Rightarrow> [] | Some ps \<Rightarrow> ps)
      else [])"

definition schemaPropertyNames :: "JSONSchema \<Rightarrow> string list" where
  "schemaPropertyNames s = map fst (schemaProperties s)"

definition schemaEnumeratedNames :: "JSONSchema \<Rightarrow> string list" where
  "schemaEnumeratedNames s = map fst (Object_entries (schemaProperties s))"

definition schemaItemType :: "JSONSchema \<Rightarrow> TypeTag option" where
  "schemaItemType s =
     (if type s = TypeName ''array'' then map_option type (items s) else None)"

text \<open>
  An entry of the source \<^verbatim>\<open>properties\<close> and an entry of the target \<^verbatim>\<open>properties\<close>: the
  same key, and the value translated.
\<close>

definition translatesTo :: "string \<times> JSONSchema \<Rightarrow> string \<times> GeminiSchema \<Rightarrow> bool" where
  "translatesTo e p = (fst p = fst e \<and> jsonSchemaToGeminiSchema (snd e) = Inr (snd p))"

section \<open>Inputs for the examples\<close>

text \<open>
  \<^verbatim>\<open>CVSchema\<close> of schemas.ts, with the keys the translator reads.
\<close>

definition stringSchema :: JSONSchema where
  "stringSchema = Schema (TypeName ''string'') None None None None"

definition CVSchema :: JSONSchema where
  "CVSchema =
     Schema (TypeName ''object'')
       (Some
         [(''name'', stringSchema),
          (''email'', stringSchema),
          (''phone'', stringSchema),
          (''location'', stringSchema),
          (''skills'', Schema (TypeName ''array'') None (Some stringSchema) None None),
          (''experience'',
             Schema (TypeName ''array'') None
               (Some (Schema (TypeName ''object'')
                  (Some [(''title'', stringSchema), (''company'', stringSchema),
                         (''period'', stringSchema), (''description'', stringSchema)])
                  None
                  (Some [''title'', ''company'', ''period'', ''description''])
                  None))
               None None),
          (''education'',
             Schema (TypeName ''array'') None
               (Some (Schema (TypeName ''object'')
                  (Some [(''degree'', stringSchema), (''institution'', stringSchema),
                         (''year'', stringSchema)])
                  None
                  (Some [''degree'', ''institution'', ''year''])
                  None))
               None None),
          (''yearsOfExperience'', Schema (TypeName ''number'') None None None None)])
       None
       (Some [''name'', ''email'', ''phone'', ''location'', ''skills'', ''experience'',
              ''education'', ''yearsOfExperience''])
       None"

text \<open>An object schema with a \<^verbatim>\<open>null\<close>-typed item schema two levels down.\<close>

definition nullInsideObject :: JSONSchema where
  "nullInsideObject =
     Schema (TypeName ''object'')
       (Some [(''name'', stringSchema),
              (''tags'', Schema (TypeName ''array'') None
                   (Some (Schema (TypeName ''null'') None None None None)) None None)])
       None (Some [''name'']) None"

text \<open>The schema of the end-to-end example: an object with a name and an age.\<close>

definition personSchema :: JSONSchema where
  "personSchema =
     Schema (TypeName ''object'')
       (Some [(''name'', stringSchema),
              (''age'', Schema (TypeName ''integer'') None None None None)])
       None (Some [''name'', ''age'']) None"

definition personConfig :: StructuredOutputConfig where
  "personConfig = \<lparr>schema = personSchema, schemaName = ''person'', schemaDescription = None\<rparr>"

definition bobMessages :: "Message list" where
  "bobMessages = [\<lparr>role = user, content = ''Bob is 42''\<rparr>]"

text \<open>
  Decoded JSON values, for the example (numbers are the integers, which is all the example
  needs), and a stand-in for \<^verbatim>\<open>JSON.parse\<close> that knows one document and rejects every
  other text.
\<close>

datatype JSONValue =
    JSONNull | JSONBool bool | JSONNumber int | JSONString string
  | JSONArray "JSONValue list" | JSONObject "(string \<times> JSONValue) list"

definition bobText :: string where
  \<open>bobText = ''{"name":"Bob","age":42}''\<close>

definition bobData :: JSONValue where
  "bobData = JSONObject [(''name'', JSONString ''Bob''), (''age'', JSONNumber 42)]"

definition stubParse :: "string \<Rightarrow> string + JSONValue" where
  "stubParse text = (if text = bobText then Inr bobData else Inl ''Unexpected token'')"

text \<open>Simulated backends: an OpenAI completion with one choice, a Gemini result that is its text.\<close>

definition completionWith :: "string option \<Rightarrow> string option \<Rightarrow> ChatCompletion" where
  "completionWith c r = \<lparr>choices = [Choice (Some (ChatCompletionMessage c r))]\<rparr>"

definition openAIReturning ::
  "ChatCompletion \<Rightarrow> ChatCompletionCreateParams \<Rightarrow> JsError + ChatCompletion" where
  "openAIReturning completion request = Inr completion"

definition geminiReturning :: "string \<Rightarrow> ModelParams \<Rightarrow> string \<Rightarrow> JsError + string" where
  "geminiReturning text params prompt = Inr text"

definition textOf :: "string \<Rightarrow> JsError + string" where
  "textOf result = Inr result"


text \<open>
  An object schema whose properties were created in the order \<^verbatim>\<open>b\<close>, \<^verbatim>\<open>2\<close>, \<^verbatim>\<open>1\<close>, and one
  with an own property \<^verbatim>\<open>__proto__\<close> (as \<^verbatim>\<open>JSON.parse\<close> creates it).
\<close>

definition numberedProperties :: JSONSchema where
  "numberedProperties =
     Schema (TypeName ''object'')
       (Some [(''b'', stringSchema),
              (''2'', Schema (TypeName ''boolean'') None None None None),
              (''1'', Schema (TypeName ''number'') None None None None)])
       None None None"

definition protoProperty :: JSONSchema where
  "protoProperty =
     Schema (TypeName ''object'')
       (Some [(''__proto__'', stringSchema), (''a'', stringSchema)])
       None None None"

section \<open>Lemmas about the translator\<close>

subsection \<open>The loop over the properties\<close>

lemma defineOwnProperty_fresh:
  "key \<notin> fst ` set ps \<Longrightarrow> defineOwnProperty key v ps = ps @ [(key, v)]"
  by (induction ps) auto

lemma assignProperty_fresh:
  "key \<noteq> ''__proto__'' \<Longrightarrow> key \<notin> fst ` set ps
     \<Longrightarrow> assignProperty key v ps = ps @ [(key, v)]"
  by (simp add: assignProperty_def defineOwnProperty_fresh)

lemma set_Object_entries: "set (Object_entries ps) = set ps"
  by (auto simp: Object_entries_def)

lemma distinct_Object_entries:
  assumes "distinct (map fst ps)"
  shows "distinct (map fst (Object_entries ps))"
proof -
  from assms have d: "distinct ps" and inj: "inj_on fst (set ps)"
    by (simp_all add: distinct_map)
  have "distinct (Object_entries ps)"
    using d by (auto simp: Object_entries_def)
  moreover have "inj_on fst (set (Object_entries ps))"
    using inj by (simp add: set_Object_entries)
  ultimately show ?thesis by (simp add: distinct_map)
qed

lemma map_of_Object_entries:
  "distinct (map fst ps) \<Longrightarrow> map_of (Object_entries ps) = map_of ps"
  using distinct_Object_entries [of ps] set_Object_entries [of ps]
  by (simp add: map_of_inject_set)

lemmas entries_simps =
  Object_entries_def arrayIndex_def indexOrder_def digitValue_def assignProperty_def

lemma Object_entries_id:
  assumes "\<forall>e \<in> set as. arrayIndex (fst e) \<noteq> None"
    and "\<forall>e \<in> set bs. arrayIndex (fst e) = None"
    and "sorted (map indexOrder as)"
  shows "Object_entries (as @ bs) = as @ bs"
proof -
  have a1: "filter (\<lambda>e. arrayIndex (fst e) \<noteq> None) as = as"
    using assms(1) by (simp only: filter_id_conv)
  have a2: "filter (\<lambda>e. arrayIndex (fst e) \<noteq> None) bs = []"
    using assms(2) by (simp only: filter_empty_conv) simp
  have b1: "filter (\<lambda>e. arrayIndex (fst e) = None) as = []"
    using assms(1) by (simp only: filter_empty_conv)
  have b2: "filter (\<lambda>e. arrayIndex (fst e) = None) bs = bs"
    using assms(2) by (simp only: filter_id_conv)
  have c: "sort_key indexOrder as = as"
    using assms(3) by (rule sort_key_id_if_sorted)
  show ?thesis
    unfolding Object_entries_def filter_append a1 a2 b1 b2 append_Nil2 append_Nil c ..
qed

lemma Object_entries_same_keys:
  assumes "map fst out = map fst (Object_entries ps)"
  shows "Object_entries out = out"
proof -
  define A where "A = sort_key indexOrder (filter (\<lambda>e. arrayIndex (fst e) \<noteq> None) ps)"
  define B where "B = filter (\<lambda>e. arrayIndex (fst e) = None) ps"
  define us where "us = take (length A) out"
  define vs where "vs = drop (length A) out"
  have out: "out = us @ vs" by (simp add: us_def vs_def)
  have keys: "map fst out = map fst A @ map fst B"
    using assms by (simp add: Object_entries_def A_def B_def)
  have "map fst us = take (length A) (map fst out)"
    by (simp add: us_def take_map)
  also have "\<dots> = map fst A" by (simp add: keys)
  finally have us: "map fst us = map fst A" .
  have "map fst vs = drop (length A) (map fst out)"
    by (simp add: vs_def drop_map)
  also have "\<dots> = map fst B" by (simp add: keys)
  finally have vs: "map fst vs = map fst B" .
  have setA: "\<forall>k \<in> set (map fst A). arrayIndex k \<noteq> None"
    by (auto simp: A_def)
  have setB: "\<forall>k \<in> set (map fst B). arrayIndex k = None"
    by (auto simp: B_def)
  have a: "\<forall>e \<in> set us. arrayIndex (fst e) \<noteq> None"
  proof
    fix e assume "e \<in> set us"
    then have "fst e \<in> set (map fst us)" by simp
    with setA show "arrayIndex (fst e) \<noteq> None" unfolding us by blast
  qed
  have b: "\<forall>e \<in> set vs. arrayIndex (fst e) = None"
  proof
    fix e assume "e \<in> set vs"
    then have "fst e \<in> set (map fst vs)" by simp
    with setB show "arrayIndex (fst e) = None" unfolding vs by blast
  qed
  have ord: "map indexOrder xs
      = map (\<lambda>k. case arrayIndex k of None \<Rightarrow> 0 | Some n \<Rightarrow> n) (map fst xs)"
    for xs :: "(string \<times> 'x) list"
    by (simp add: indexOrder_def)
  have "sorted (map indexOrder A)"
    unfolding A_def by (rule sorted_sort_key)
  then have c: "sorted (map indexOrder us)"
    unfolding ord us .
  from Object_entries_id [OF a b c] show ?thesis unfolding out .
qed

lemma translateEntries_Inr:
  "distinct (map fst es) \<Longrightarrow> fst ` set es \<inter> fst ` set acc = {}
    \<Longrightarrow> list_all2 translatesTo es out
    \<Longrightarrow> ''__proto__'' \<notin> fst ` set es
    \<Longrightarrow> translateEntries es acc = Inr (acc @ out)"
proof (induction es arbitrary: acc out)
  case Nil
  then show ?case by simp
next
  case (Cons e es)
  obtain key v where e: "e = (key, v)" by (cases e)
  from Cons.prems(3) obtain p out' where out: "out = p # out'"
    and p: "translatesTo e p" and rest: "list_all2 translatesTo es out'"
    by (auto simp: list_all2_Cons1)
  from p e have pk: "p = (key, snd p)" and tv: "jsonSchemaToGeminiSchema v = Inr (snd p)"
    by (auto simp: translatesTo_def intro: prod_eqI)
  from Cons.prems(2) e have fresh: "key \<notin> fst ` set acc" by auto
  from Cons.prems(4) e have np: "key \<noteq> ''__proto__''"
    and np': "''__proto__'' \<notin> fst ` set es" by auto
  have d: "distinct (map fst es)" using Cons.prems(1) by simp
  have disj: "fst ` set es \<inter> fst ` set (acc @ [(key, snd p)]) = {}"
    using Cons.prems(1,2) e by auto
  have "translateEntries (e # es) acc = translateEntries es (acc @ [(key, snd p)])"
    using e tv fresh np by (simp add: assignProperty_fresh)
  also have "\<dots> = Inr ((acc @ [(key, snd p)]) @ out')"
    by (rule Cons.IH [OF d disj rest np'])
  finally show ?case using out pk by simp
qed

lemma translateEntries_InrD:
  "translateEntries es acc = Inr res \<Longrightarrow> distinct (map fst es)
    \<Longrightarrow> fst ` set es \<inter> fst ` set acc = {}
    \<Longrightarrow> ''__proto__'' \<notin> fst ` set es
    \<Longrightarrow> \<exists>out. res = acc @ out \<and> list_all2 translatesTo es out"
proof (induction es arbitrary: acc)
  case Nil
  then show ?case by simp
next
  case (Cons e es)
  obtain key v where e: "e = (key, v)" by (cases e)
  from Cons.prems(1) e obtain g where tv: "jsonSchemaToGeminiSchema v = Inr g"
    and rest: "translateEntries es (assignProperty key g acc) = Inr res"
    by (auto split: sum.splits)
  from Cons.prems(3) e have fresh: "key \<notin> fst ` set acc" by auto
  from Cons.prems(4) e have np: "key \<noteq> ''__proto__''"
    and np': "''__proto__'' \<notin> fst ` set es" by auto
  have d: "distinct (map fst es)" using Cons.prems(2) by simp
  have disj: "fst ` set es \<inter> fst ` set (acc @ [(key, g)]) = {}"
    using Cons.prems(2,3) e by auto
  from rest fresh np have "translateEntries es (acc @ [(key, g)]) = Inr res"
    by (simp add: assignProperty_fresh)
  from Cons.IH [OF this d disj np'] obtain out'
    where res: "res = (acc @ [(key, g)]) @ out'" and all: "list_all2 translatesTo es out'"
    by blast
  have "translatesTo e (key, g)" using e tv by (simp add: translatesTo_def)
  with all have "list_all2 translatesTo (e # es) ((key, g) # out')" by simp
  with res show ?case by (intro exI [of _ "(key, g) # out'"]) simp
qed

lemma translateEntries_fails:
  "e \<in> set es \<Longrightarrow> jsonSchemaToGeminiSchema (snd e) = Inl err
    \<Longrightarrow> \<exists>err'. translateEntries es acc = Inl err'"
proof (induction es arbitrary: acc)
  case Nil
  then show ?case by simp
next
  case (Cons x es)
  obtain key v where x: "x = (key, v)" by (cases x)
  show ?case
  proof (cases "jsonSchemaToGeminiSchema v")
    case (Inl a)
    then show ?thesis using x by simp
  next
    case (Inr g)
    with Cons.prems x have "e \<in> set es" by auto
    from Cons.IH [OF this Cons.prems(2)] show ?thesis using x Inr by simp
  qed
qed

lemma translateEntries_InlD:
  "translateEntries es acc = Inl err
    \<Longrightarrow> \<exists>e \<in> set es. jsonSchemaToGeminiSchema (snd e) = Inl err"
proof (induction es arbitrary: acc)
  case Nil
  then show ?case by simp
next
  case (Cons x es)
  obtain key v where x: "x = (key, v)" by (cases x)
  show ?case
  proof (cases "jsonSchemaToGeminiSchema v")
    case (Inl a)
    then show ?thesis using x Cons.prems by simp
  next
    case (Inr g)
    with Cons.prems x have "translateEntries es (assignProperty key g acc) = Inl err" by simp
    from Cons.IH [OF this] show ?thesis by auto
  qed
qed

subsection \<open>Failures\<close>

lemma translate_error_form:
  "(\<forall>e. jsonSchemaToGeminiSchema s = Inl e \<longrightarrow>
        (\<exists>t. e = Error (''Unsupported JSON Schema type: '' @ typeToString t)))"
  "(\<forall>e. translateEntries es acc = Inl e \<longrightarrow>
        (\<exists>t. e = Error (''Unsupported JSON Schema type: '' @ typeToString t)))"
proof (induction s and es acc rule: jsonSchemaToGeminiSchema_translateEntries.induct)
  case (1 jsonSchema)
  show ?case
  proof (intro allI impI)
    fix e assume a: "jsonSchemaToGeminiSchema jsonSchema = Inl e"
    show "\<exists>t. e = Error (''Unsupported JSON Schema type: '' @ typeToString t)"
    proof (cases "type jsonSchema = TypeName ''object'' \<and> properties jsonSchema \<noteq> None")
      case True
      with a have "translateEntries (Object_entries (the (properties jsonSchema))) [] = Inl e"
        by (simp add: jsonSchemaToGeminiSchema.simps [of jsonSchema] split: sum.splits)
      with "1.IH"(1) [OF True] show ?thesis by blast
    next
      case False
      note notobj = this
      show ?thesis
      proof (cases "type jsonSchema = TypeName ''array'' \<and> items jsonSchema \<noteq> None")
        case True
        with a notobj have "jsonSchemaToGeminiSchema (the (items jsonSchema)) = Inl e"
          by (simp add: jsonSchemaToGeminiSchema.simps [of jsonSchema] split: sum.splits)
        with "1.IH"(2) [OF notobj True] show ?thesis by blast
      next
        case False
        with a notobj show ?thesis
          by (auto simp: jsonSchemaToGeminiSchema.simps [of jsonSchema] split: if_splits)
      qed
    qed
  qed
next
  case (2 props)
  then show ?case by simp
next
  case (3 key v entries props)
  then show ?case by (auto split: sum.splits)
qed

lemma nested_failure:
  "schemaAt s path = Some n \<Longrightarrow> jsonSchemaToGeminiSchema n = Inl e
    \<Longrightarrow> \<exists>e'. jsonSchemaToGeminiSchema s = Inl e'"
proof (induction path arbitrary: s)
  case Nil
  then show ?case by simp
next
  case (Cons st path)
  show ?case
  proof (cases st)
    case (Property key)
    with Cons.prems(1) obtain ps v where ty: "type s = TypeName ''object''"
      and ps: "properties s = Some ps" and v: "map_of ps key = Some v"
      and at: "schemaAt v path = Some n"
      by (auto split: if_splits option.splits)
    from Cons.IH [OF at Cons.prems(2)] obtain e1 where "jsonSchemaToGeminiSchema v = Inl e1" ..
    moreover from v have "(key, v) \<in> set (Object_entries ps)"
      by (simp add: set_Object_entries map_of_SomeD)
    ultimately obtain e2 where "translateEntries (Object_entries ps) [] = Inl e2"
      using translateEntries_fails [of "(key, v)" "Object_entries ps" e1 "[]"] by auto
    with ty ps show ?thesis by (simp add: jsonSchemaToGeminiSchema.simps [of s])
  next
    case Items
    with Cons.prems(1) obtain v where ty: "type s = TypeName ''array''"
      and its: "items s = Some v" and at: "schemaAt v path = Some n"
      by (auto split: if_splits option.splits)
    from Cons.IH [OF at Cons.prems(2)] obtain e1 where "jsonSchemaToGeminiSchema v = Inl e1" ..
    with ty its show ?thesis by (simp add: jsonSchemaToGeminiSchema.simps [of s])
  qed
qed

lemma unrecognized_node:
  "type n \<notin> recognizedKinds \<Longrightarrow>
     jsonSchemaToGeminiSchema n
       = Inl (Error (''Unsupported JSON Schema type: '' @ typeToString (type n)))"
  by (simp add: jsonSchemaToGeminiSchema.simps [of n] recognizedKinds_def)

subsection \<open>One node\<close>

lemma canonicalEntries_iff: "canonicalEntries es \<longleftrightarrow> (\<forall>e \<in> set es. canonical (snd e))"
  by (induction es) auto

lemma canonical_object:
  "canonical s \<Longrightarrow> type s = TypeName ''object'' \<Longrightarrow>
     \<exists>ps. properties s = Some ps \<and> distinct (map fst ps) \<and> ''__proto__'' \<notin> fst ` set ps
        \<and> (\<forall>e \<in> set ps. canonical (snd e))"
  by (auto simp: canonical.simps [of s] canonicalEntries_iff split: if_splits)

lemma canonical_array:
  "canonical s \<Longrightarrow> type s = TypeName ''array'' \<Longrightarrow> \<exists>i. items s = Some i \<and> canonical i"
  by (auto simp: canonical.simps [of s] split: if_splits)

lemma canonical_leaf:
  "canonical s \<Longrightarrow> type s \<noteq> TypeName ''object'' \<Longrightarrow> type s \<noteq> TypeName ''array'' \<Longrightarrow>
     type s \<in> {TypeName ''string'', TypeName ''number'', TypeName ''integer'',
                TypeName ''boolean''}"
  by (auto simp: canonical.simps [of s] split: if_splits)

lemma translate_leaf:
  "type s \<in> {TypeName ''string'', TypeName ''number'', TypeName ''integer'',
                TypeName ''boolean''} \<Longrightarrow>
   \<exists>t. jsonSchemaToGeminiSchema s = Inr (TypeSchema t) \<and> kindOf (type s) = Some t"
  by (auto simp: jsonSchemaToGeminiSchema.simps [of s])

lemma translate_array:
  "type s = TypeName ''array'' \<Longrightarrow> items s = Some i \<Longrightarrow>
     (jsonSchemaToGeminiSchema s = Inr g \<longleftrightarrow>
        (\<exists>gi. jsonSchemaToGeminiSchema i = Inr gi \<and> g = ArraySchema ARRAY gi))"
  by (auto simp: jsonSchemaToGeminiSchema.simps [of s] split: sum.splits)

lemma translate_object:
  assumes "type s = TypeName ''object''" and "properties s = Some ps"
    and "distinct (map fst ps)" and "''__proto__'' \<notin> fst ` set ps"
  shows "jsonSchemaToGeminiSchema s = Inr g \<longleftrightarrow>
           (\<exists>out. list_all2 translatesTo (Object_entries ps) out \<and>
              g = ObjectSchema OBJECT out (case required s of None \<Rightarrow> [] | Some r \<Rightarrow> r))"
proof
  have d: "distinct (map fst (Object_entries ps))"
    using assms(3) by (rule distinct_Object_entries)
  have np: "''__proto__'' \<notin> fst ` set (Object_entries ps)"
    using assms(4) by (simp add: set_Object_entries)
  {
    assume "jsonSchemaToGeminiSchema s = Inr g"
    with assms(1,2) obtain res where res: "translateEntries (Object_entries ps) [] = Inr res"
      and g: "g = ObjectSchema OBJECT res (case required s of None \<Rightarrow> [] | Some r \<Rightarrow> r)"
      by (auto simp: jsonSchemaToGeminiSchema.simps [of s] split: sum.splits)
    from translateEntries_InrD [OF res d _ np]
    have "list_all2 translatesTo (Object_entries ps) res" by simp
    with g show "\<exists>out. list_all2 translatesTo (Object_entries ps) out \<and>
        g = ObjectSchema OBJECT out (case required s of None \<Rightarrow> [] | Some r \<Rightarrow> r)" by blast
  }
  {
    assume "\<exists>out. list_all2 translatesTo (Object_entries ps) out \<and>
        g = ObjectSchema OBJECT out (case required s of None \<Rightarrow> [] | Some r \<Rightarrow> r)"
    then obtain out where out: "list_all2 translatesTo (Object_entries ps) out"
      and g: "g = ObjectSchema OBJECT out (case required s of None \<Rightarrow> [] | Some r \<Rightarrow> r)"
      by blast
    from translateEntries_Inr [OF d _ out np, of "[]"]
    have "translateEntries (Object_entries ps) [] = Inr out" by simp
    with assms(1,2) g show "jsonSchemaToGeminiSchema s = Inr g"
      by (simp add: jsonSchemaToGeminiSchema.simps [of s])
  }
qed

lemma translatesTo_keys: "list_all2 translatesTo ps out \<Longrightarrow> map fst out = map fst ps"
  by (induction rule: list_all2_induct) (auto simp: translatesTo_def)

lemma translatesTo_exists:
  "\<forall>e \<in> set es. \<exists>g. jsonSchemaToGeminiSchema (snd e) = Inr g
     \<Longrightarrow> \<exists>out. list_all2 translatesTo es out"
proof (induction es)
  case Nil
  then show ?case by simp
next
  case (Cons e es)
  then obtain g out where "jsonSchemaToGeminiSchema (snd e) = Inr g"
    and "list_all2 translatesTo es out" by auto
  then have "list_all2 translatesTo (e # es) ((fst e, g) # out)"
    by (simp add: translatesTo_def)
  then show ?case ..
qed

lemma translatesTo_map_of:
  "list_all2 translatesTo ps out \<Longrightarrow>
     (case map_of ps key of
        None \<Rightarrow> map_of out key = None
      | Some v \<Rightarrow> \<exists>g. map_of out key = Some g \<and> jsonSchemaToGeminiSchema v = Inr g)"
  by (induction rule: list_all2_induct) (auto simp: translatesTo_def split: option.splits)

subsection \<open>Whole trees\<close>

lemma canonical_translates:
  "canonical s \<longrightarrow> (\<exists>g. jsonSchemaToGeminiSchema s = Inr g)"
  "canonicalEntries es \<longrightarrow> (\<forall>e \<in> set es. \<exists>g. jsonSchemaToGeminiSchema (snd e) = Inr g)"
proof (induction s and es rule: canonical_canonicalEntries.induct)
  case (1 s)
  show ?case
  proof
    assume c: "canonical s"
    show "\<exists>g. jsonSchemaToGeminiSchema s = Inr g"
    proof (cases "type s = TypeName ''object''")
      case True
      from canonical_object [OF c True] obtain ps where ps: "properties s = Some ps"
        and d: "distinct (map fst ps)" and np: "''__proto__'' \<notin> fst ` set ps"
        and all: "\<forall>e \<in> set ps. canonical (snd e)" by blast
      from all have "canonicalEntries ps" by (simp add: canonicalEntries_iff)
      with "1.IH"(1) True ps have "\<forall>e \<in> set ps. \<exists>g. jsonSchemaToGeminiSchema (snd e) = Inr g"
        by simp
      then have "\<forall>e \<in> set (Object_entries ps). \<exists>g. jsonSchemaToGeminiSchema (snd e) = Inr g"
        by (simp add: set_Object_entries)
      from translatesTo_exists [OF this] obtain out
        where "list_all2 translatesTo (Object_entries ps) out" ..
      with translate_object [OF True ps d np] show ?thesis by blast
    next
      case False
      note notobj = this
      show ?thesis
      proof (cases "type s = TypeName ''array''")
        case True
        from canonical_array [OF c True] obtain i where i: "items s = Some i"
          and ci: "canonical i" by blast
        with "1.IH"(2) True notobj obtain gi where "jsonSchemaToGeminiSchema i = Inr gi"
          by auto
        with translate_array [OF True i] show ?thesis by blast
      next
        case False
        from translate_leaf [OF canonical_leaf [OF c notobj False]] show ?thesis by blast
      qed
    qed
  qed
next
  case 2
  then show ?case by simp
next
  case (3 key v entries)
  then show ?case by simp
qed

lemma entriesDepth_Max: "entriesDepth es = Max (insert 0 (schemaDepth ` snd ` set es))"
proof (induction es)
  case Nil
  then show ?case by simp
next
  case (Cons e es)
  obtain key v where e: "e = (key, v)" by (cases e)
  have "insert 0 (schemaDepth ` snd ` set (e # es))
      = insert (schemaDepth v) (insert 0 (schemaDepth ` snd ` set es))"
    using e by auto
  then have "Max (insert 0 (schemaDepth ` snd ` set (e # es)))
      = max (schemaDepth v) (Max (insert 0 (schemaDepth ` snd ` set es)))"
    by simp
  with Cons.IH e show ?case by simp
qed

lemma entriesDepth_Object_entries: "entriesDepth (Object_entries ps) = entriesDepth ps"
  by (simp add: entriesDepth_Max set_Object_entries)

lemma entries_depth_preserved:
  "list_all2 translatesTo es out
    \<Longrightarrow> \<forall>e \<in> set es. \<forall>g. jsonSchemaToGeminiSchema (snd e) = Inr g
          \<longrightarrow> geminiDepth g = schemaDepth (snd e)
    \<Longrightarrow> geminiEntriesDepth out = entriesDepth es"
proof (induction rule: list_all2_induct)
  case Nil
  then show ?case by simp
next
  case (Cons e es p out)
  obtain key v where e: "e = (key, v)" by (cases e)
  from Cons.hyps(1) e have pk: "p = (key, snd p)"
    and tv: "jsonSchemaToGeminiSchema v = Inr (snd p)"
    by (auto simp: translatesTo_def intro: prod_eqI)
  from Cons.prems e tv have "geminiDepth (snd p) = schemaDepth v" by simp
  moreover from Cons.IH Cons.prems have "geminiEntriesDepth out = entriesDepth es" by simp
  moreover have "geminiEntriesDepth ((key, snd p) # out)
      = max (geminiDepth (snd p)) (geminiEntriesDepth out)" by simp
  ultimately show ?case using e pk by simp
qed

lemma depth_preserved:
  "\<forall>g. canonical s \<longrightarrow> jsonSchemaToGeminiSchema s = Inr g \<longrightarrow> geminiDepth g = schemaDepth s"
  "\<forall>e \<in> set (es :: (string \<times> JSONSchema) list).
      \<forall>g. canonical (snd e) \<longrightarrow> jsonSchemaToGeminiSchema (snd e) = Inr g
       \<longrightarrow> geminiDepth g = schemaDepth (snd e)"
proof (induction s and es rule: schemaDepth_entriesDepth.induct)
  case (1 s)
  show ?case
  proof (intro allI impI)
    fix g assume c: "canonical s" and t: "jsonSchemaToGeminiSchema s = Inr g"
    show "geminiDepth g = schemaDepth s"
    proof (cases "type s = TypeName ''object''")
      case True
      from canonical_object [OF c True] obtain ps where ps: "properties s = Some ps"
        and d: "distinct (map fst ps)" and np: "''__proto__'' \<notin> fst ` set ps"
        and all: "\<forall>e \<in> set ps. canonical (snd e)" by blast
      from t translate_object [OF True ps d np] obtain out
        where out: "list_all2 translatesTo (Object_entries ps) out"
          and g: "g = ObjectSchema OBJECT out (case required s of None \<Rightarrow> [] | Some r \<Rightarrow> r)"
        by blast
      from "1.IH"(1) True ps all
      have "\<forall>e \<in> set (Object_entries ps). \<forall>g. jsonSchemaToGeminiSchema (snd e) = Inr g
          \<longrightarrow> geminiDepth g = schemaDepth (snd e)"
        by (simp add: set_Object_entries)
      from entries_depth_preserved [OF out this]
      have "geminiEntriesDepth out = entriesDepth ps"
        by (simp add: entriesDepth_Object_entries)
      with g True ps show ?thesis by (simp add: schemaDepth.simps [of s])
    next
      case False
      note notobj = this
      show ?thesis
      proof (cases "type s = TypeName ''array''")
        case True
        from canonical_array [OF c True] obtain i where i: "items s = Some i"
          and ci: "canonical i" by blast
        from t translate_array [OF True i] obtain gi
          where gi: "jsonSchemaToGeminiSchema i = Inr gi" and g: "g = ArraySchema ARRAY gi"
          by blast
        from "1.IH"(2) True notobj i ci gi have "geminiDepth gi = schemaDepth i" by simp
        with g True i show ?thesis by (simp add: schemaDepth.simps [of s])
      next
        case False
        from translate_leaf [OF canonical_leaf [OF c notobj False]] t
        obtain ty where "g = TypeSchema ty" by auto
        with notobj False show ?thesis by (simp add: schemaDepth.simps [of s])
      qed
    qed
  qed
next
  case 2
  then show ?case by simp
next
  case (3 key v entries)
  then show ?case by simp
qed

lemma node_preserved:
  assumes c: "canonical n" and t: "jsonSchemaToGeminiSchema n = Inr m"
  shows "geminiPropertyNames m = schemaEnumeratedNames n
       \<and> set (geminiPropertyNames m) = set (schemaPropertyNames n)
       \<and> Some (geminiType m) = kindOf (type n)
       \<and> geminiItemType m = (case schemaItemType n of None \<Rightarrow> None | Some ty \<Rightarrow> kindOf ty)"
proof (cases "type n = TypeName ''object''")
  case True
  from canonical_object [OF c True] obtain ps where ps: "properties n = Some ps"
    and d: "distinct (map fst ps)" and np: "''__proto__'' \<notin> fst ` set ps" by blast
  from t translate_object [OF True ps d np] obtain out
    where out: "list_all2 translatesTo (Object_entries ps) out"
      and m: "m = ObjectSchema OBJECT out (case required n of None \<Rightarrow> [] | Some r \<Rightarrow> r)"
    by blast
  have "set (map fst (Object_entries ps)) = set (map fst ps)"
    by (simp add: set_Object_entries)
  with translatesTo_keys [OF out] m True ps show ?thesis
    by (simp add: schemaPropertyNames_def schemaEnumeratedNames_def schemaProperties_def
        schemaItemType_def)
next
  case False
  note notobj = this
  show ?thesis
  proof (cases "type n = TypeName ''array''")
    case True
    from canonical_array [OF c True] obtain i where i: "items n = Some i"
      and ci: "canonical i" by blast
    from t translate_array [OF True i] obtain gi
      where gi: "jsonSchemaToGeminiSchema i = Inr gi" and m: "m = ArraySchema ARRAY gi"
      by blast
    have "Some (geminiType gi) = kindOf (type i)"
    proof (cases "type i = TypeName ''object''")
      case True
      from canonical_object [OF ci True] obtain ps where ps: "properties i = Some ps"
        and d: "distinct (map fst ps)" and np: "''__proto__'' \<notin> fst ` set ps" by blast
      from gi translate_object [OF True ps d np] True show ?thesis by auto
    next
      case False
      note inotobj = this
      show ?thesis
      proof (cases "type i = TypeName ''array''")
        case True
        from canonical_array [OF ci True] obtain j where "items i = Some j" by blast
        from gi translate_array [OF True this] True show ?thesis by auto
      next
        case False
        from translate_leaf [OF canonical_leaf [OF ci inotobj False]] gi show ?thesis by auto
      qed
    qed
    with m True i show ?thesis
      by (simp add: schemaPropertyNames_def schemaEnumeratedNames_def schemaProperties_def
          Object_entries_def schemaItemType_def)
  next
    case False
    from translate_leaf [OF canonical_leaf [OF c notobj False]] t
    obtain ty where "m = TypeSchema ty" and "kindOf (type n) = Some ty" by auto
    with notobj False show ?thesis
      by (simp add: schemaPropertyNames_def schemaEnumeratedNames_def schemaProperties_def
          Object_entries_def schemaItemType_def)
  qed
qed

lemma path_preserved:
  "canonical s \<Longrightarrow> jsonSchemaToGeminiSchema s = Inr g \<Longrightarrow>
     (case schemaAt s path of
        None \<Rightarrow> geminiAt g path = None
      | Some n \<Rightarrow> \<exists>m. geminiAt g path = Some m \<and> canonical n
                    \<and> jsonSchemaToGeminiSchema n = Inr m)"
proof (induction path arbitrary: s g)
  case Nil
  then show ?case by simp
next
  case (Cons st path)
  note c = Cons.prems(1) and t = Cons.prems(2)
  show ?case
  proof (cases "type s = TypeName ''object''")
    case True
    from canonical_object [OF c True] obtain ps where ps: "properties s = Some ps"
      and d: "distinct (map fst ps)" and np: "''__proto__'' \<notin> fst ` set ps"
      and all: "\<forall>e \<in> set ps. canonical (snd e)" by blast
    from t translate_object [OF True ps d np] obtain out
      where out: "list_all2 translatesTo (Object_entries ps) out"
        and g: "g = ObjectSchema OBJECT out (case required s of None \<Rightarrow> [] | Some r \<Rightarrow> r)"
      by blast
    note lookup = translatesTo_map_of [OF out, unfolded map_of_Object_entries [OF d]]
    show ?thesis
    proof (cases st)
      case (Property key)
      show ?thesis
      proof (cases "map_of ps key")
        case None
        with lookup [of key] have "map_of out key = None" by simp
        with None Property True ps g show ?thesis by simp
      next
        case (Some v)
        with lookup [of key] obtain gv
          where gv: "map_of out key = Some gv" and tv: "jsonSchemaToGeminiSchema v = Inr gv"
          by auto
        from Some have "(key, v) \<in> set ps" by (rule map_of_SomeD)
        with all have cv: "canonical v" by auto
        have e1: "schemaAt s (st # path) = schemaAt v path"
          using Some Property True ps by simp
        have e2: "geminiAt g (st # path) = geminiAt gv path"
          using gv Property g by simp
        show ?thesis unfolding e1 e2 by (rule Cons.IH [OF cv tv])
      qed
    next
      case Items
      with True g show ?thesis by simp
    qed
  next
    case False
    note notobj = this
    show ?thesis
    proof (cases "type s = TypeName ''array''")
      case True
      from canonical_array [OF c True] obtain i where i: "items s = Some i"
        and ci: "canonical i" by blast
      from t translate_array [OF True i] obtain gi
        where gi: "jsonSchemaToGeminiSchema i = Inr gi" and g: "g = ArraySchema ARRAY gi"
        by blast
      show ?thesis
      proof (cases st)
        case (Property key)
        with True g show ?thesis by simp
      next
        case Items
        have e1: "schemaAt s (st # path) = schemaAt i path"
          using Items True i by simp
        have e2: "geminiAt g (st # path) = geminiAt gi path"
          using Items g by simp
        show ?thesis unfolding e1 e2 by (rule Cons.IH [OF ci gi])
      qed
    next
      case False
      from translate_leaf [OF canonical_leaf [OF c notobj False]] t
      obtain ty where "g = TypeSchema ty" by auto
      with notobj False show ?thesis by (cases st) simp_all
    qed
  qed
qed

section \<open>Lemmas about the adapters\<close>

lemma toUpperCase_roles:
  "toUpperCase ''system'' = ''SYSTEM''"
  "toUpperCase ''user'' = ''USER''"
  "toUpperCase ''assistant'' = ''ASSISTANT''"
  by code_simp+

lemma join_append:
  "xs \<noteq> [] \<Longrightarrow> ys \<noteq> [] \<Longrightarrow> join sep (xs @ ys) = join sep xs @ sep @ join sep ys"
proof (induction sep xs rule: join.induct)
  case (1 sep)
  then show ?case by simp
next
  case (2 sep x)
  then show ?case by (cases ys) simp_all
next
  case (3 sep x y zs)
  then show ?case by simp
qed

lemma ChatGPT_outcome:
  "ChatGPTClient_chatWithStructuredOutput create JSON_parse this_model msgs config = Inr env
   \<longleftrightarrow> (\<exists>completion m text v.
          create (ChatGPTClient_request this_model msgs config) = Inr completion
        \<and> firstMessage completion = Some m
        \<and> \<not> truthy (message_refusal m)
        \<and> message_content m = Some text \<and> text \<noteq> []
        \<and> JSON_parse text = Inr v
        \<and> env = \<lparr>data = v, rawResponse = completion\<rparr>)"
  unfolding ChatGPTClient_chatWithStructuredOutput_def
  by (cases "create (ChatGPTClient_request this_model msgs config)")
     (auto split: option.splits sum.splits elim!: truthy.elims)

lemma Gemini_outcome:
  "GeminiClient_chatWithStructuredOutput generateContent response_text JSON_parse
       this_modelName msgs config = Inr env
   \<longleftrightarrow> (\<exists>params prompt result text v.
          GeminiClient_request this_modelName msgs config = Inr (params, prompt)
        \<and> generateContent params prompt = Inr result
        \<and> response_text result = Inr text
        \<and> JSON_parse text = Inr v
        \<and> env = \<lparr>data = v, rawResponse = result\<rparr>)"
  unfolding GeminiClient_chatWithStructuredOutput_def
  by (auto split: sum.splits prod.splits)

lemma Gemini_decodes_text:
  assumes "GeminiClient_request this_modelName msgs config = Inr (params, prompt)"
    and "generateContent params prompt = Inr result"
    and "response_text result = Inr text"
  shows "GeminiClient_chatWithStructuredOutput generateContent response_text JSON_parse
           this_modelName msgs config
           = (case JSON_parse text of
                Inl msg \<Rightarrow> Inl (Error (''Failed to parse Gemini JSON response: '' @ text))
              | Inr v \<Rightarrow> Inr \<lparr>data = v, rawResponse = result\<rparr>)"
  unfolding GeminiClient_chatWithStructuredOutput_def
  by (simp add: assms)


lemma ChatGPT_decodes_content:
  assumes "create (ChatGPTClient_request this_model msgs config) = Inr completion"
    and "firstMessage completion = Some (ChatCompletionMessage (Some text) refusal)"
    and "\<not> truthy refusal" and "text \<noteq> []"
  shows "ChatGPTClient_chatWithStructuredOutput create JSON_parse this_model msgs config
           = (case JSON_parse text of
                Inl msg \<Rightarrow> Inl (SyntaxError msg)
              | Inr v \<Rightarrow> Inr \<lparr>data = v, rawResponse = completion\<rparr>)"
  unfolding ChatGPTClient_chatWithStructuredOutput_def
  by (simp add: assms)


section \<open>Shape preservation\<close>

text \<open>
  C1 (as the code has it). For every schema tree of string, number or integer, boolean,
  array and object nodes, without union nodes and without a property named \<^verbatim>\<open>__proto__\<close>,
  the translator returns a target tree of the same nesting depth in which every path of
  the source names a node and no other path does; the target node at a path has the
  property names of the source node there (the same set, in the order \<^verbatim>\<open>Object.entries\<close>
  reports them), its kind is the target kind of the source node's kind, and the item kind
  of every array node is the target kind of the source's item kind (for \<^verbatim>\<open>integer\<close> that
  is \<open>NUMBER\<close>).
\<close>

theorem translator_shape_preserved:
  assumes "canonical s"
  shows "\<exists>g. jsonSchemaToGeminiSchema s = Inr g
           \<and> geminiDepth g = schemaDepth s
           \<and> (\<forall>path. case schemaAt s path of
                  None \<Rightarrow> geminiAt g path = None
                | Some n \<Rightarrow>
                    (\<exists>m. geminiAt g path = Some m
                       \<and> set (geminiPropertyNames m) = set (schemaPropertyNames n)
                       \<and> geminiPropertyNames m = schemaEnumeratedNames n
                       \<and> Some (geminiType m) = kindOf (type n)
                       \<and> geminiItemType m
                           = (case schemaItemType n of None \<Rightarrow> None | Some ty \<Rightarrow> kindOf ty)))"
proof -
  from canonical_translates(1) [of s] assms obtain g
    where g: "jsonSchemaToGeminiSchema s = Inr g" by blast
  have d: "geminiDepth g = schemaDepth s"
    using depth_preserved(1) [of s] assms g by blast
  have "case schemaAt s path of
          None \<Rightarrow> geminiAt g path = None
        | Some n \<Rightarrow>
            (\<exists>m. geminiAt g path = Some m
               \<and> set (geminiPropertyNames m) = set (schemaPropertyNames n)
               \<and> geminiPropertyNames m = schemaEnumeratedNames n
               \<and> Some (geminiType m) = kindOf (type n)
               \<and> geminiItemType m
                   = (case schemaItemType n of None \<Rightarrow> None | Some ty \<Rightarrow> kindOf ty))"
    for path
  proof (cases "schemaAt s path")
    case None
    with path_preserved [OF assms g, of path] show ?thesis by simp
  next
    case (Some n)
    with path_preserved [OF assms g, of path] obtain m
      where m: "geminiAt g path = Some m" and cn: "canonical n"
        and tn: "jsonSchemaToGeminiSchema n = Inr m" by auto
    show ?thesis unfolding Some option.case
      using m node_preserved [OF cn tn] by blast
  qed
  with g d show ?thesis by blast
qed

theorem translator_shape_preserved_witness:
  "canonical CVSchema \<and> schemaDepth CVSchema = 4
   \<and> (\<exists>g. jsonSchemaToGeminiSchema CVSchema = Inr g
          \<and> geminiDepth g = 4
          \<and> (\<exists>m. geminiAt g [Property ''experience'', Items] = Some m
                \<and> geminiPropertyNames m = [''title'', ''company'', ''period'', ''description'']
                \<and> geminiType m = OBJECT)
          \<and> (\<exists>m. geminiAt g [Property ''skills''] = Some m
                \<and> geminiItemType m = Some STRING)
          \<and> geminiAt g [Property ''salary''] = None)"
proof -
  have c: "canonical CVSchema"
    by (simp add: CVSchema_def stringSchema_def canonical.simps)
  have d: "schemaDepth CVSchema = 4"
    by (simp add: CVSchema_def stringSchema_def schemaDepth.simps)
  from translator_shape_preserved [OF c] obtain g
    where g: "jsonSchemaToGeminiSchema CVSchema = Inr g"
      and gd: "geminiDepth g = schemaDepth CVSchema"
      and paths: "\<And>path. case schemaAt CVSchema path of
                  None \<Rightarrow> geminiAt g path = None
                | Some n \<Rightarrow>
                    (\<exists>m. geminiAt g path = Some m
                       \<and> set (geminiPropertyNames m) = set (schemaPropertyNames n)
                       \<and> geminiPropertyNames m = schemaEnumeratedNames n
                       \<and> Some (geminiType m) = kindOf (type n)
                       \<and> geminiItemType m
                           = (case schemaItemType n of None \<Rightarrow> None | Some ty \<Rightarrow> kindOf ty))"
    by blast
  have e: "\<exists>m. geminiAt g [Property ''experience'', Items] = Some m
                \<and> geminiPropertyNames m = [''title'', ''company'', ''period'', ''description'']
                \<and> geminiType m = OBJECT"
    using paths [of "[Property ''experience'', Items]"]
    by (auto simp: CVSchema_def stringSchema_def schemaEnumeratedNames_def
        schemaProperties_def entries_simps)
  have s: "\<exists>m. geminiAt g [Property ''skills''] = Some m \<and> geminiItemType m = Some STRING"
    using paths [of "[Property ''skills'']"]
    by (auto simp: CVSchema_def stringSchema_def schemaItemType_def)
  have n: "geminiAt g [Property ''salary''] = None"
    using paths [of "[Property ''salary'']"]
    by (simp add: CVSchema_def)
  from c d g gd e s n show ?thesis by auto
qed

text \<open>
  C1 (as the specification states it) fails on the sixth node kind, on integer items and
  on one property name. A union node, with no \<^verbatim>\<open>type\<close> or with the array of its
  alternatives' types, has no translation at all; the item kind \<^verbatim>\<open>integer\<close> of an array
  node becomes \<open>NUMBER\<close>; and of the properties \<^verbatim>\<open>__proto__\<close> and \<^verbatim>\<open>a\<close> of an object node
  the target has \<^verbatim>\<open>a\<close> only.
\<close>

theorem union_node_has_no_translation:
  "jsonSchemaToGeminiSchema
      (Schema NoType None None None
         (Some [stringSchema, Schema (TypeName ''number'') None None None None]))
     = Inl (Error ''Unsupported JSON Schema type: undefined'')
   \<and> jsonSchemaToGeminiSchema
      (Schema (TypeNames [''string'', ''number'']) None None None
         (Some [stringSchema, Schema (TypeName ''number'') None None None None]))
     = Inl (Error ''Unsupported JSON Schema type: string,number'')
   \<and> jsonSchemaToGeminiSchema
      (Schema (TypeName ''array'') None
         (Some (Schema (TypeName ''integer'') None None None None)) None None)
     = Inr (ArraySchema ARRAY (TypeSchema NUMBER))
   \<and> NUMBER \<noteq> INTEGER
   \<and> schemaPropertyNames protoProperty = [''__proto__'', ''a'']
   \<and> (\<exists>g. jsonSchemaToGeminiSchema protoProperty = Inr g \<and> geminiPropertyNames g = [''a''])"
  by (simp add: jsonSchemaToGeminiSchema.simps stringSchema_def protoProperty_def
      schemaPropertyNames_def schemaProperties_def entries_simps)

section \<open>Unsupported kinds\<close>

text \<open>
  C3. A node whose \<^verbatim>\<open>type\<close> is none of the six kinds the translator knows is rejected with
  the error whose message ends in that type, and when such a node sits anywhere in a tree
  (at a path of properties and items), the translation of the whole tree is an error of
  the same form: no tree is returned.
\<close>

theorem unsupported_type_rejected:
  assumes "schemaAt s path = Some n" and "type n \<notin> recognizedKinds"
  shows "jsonSchemaToGeminiSchema n
           = Inl (Error (''Unsupported JSON Schema type: '' @ typeToString (type n)))
         \<and> (\<exists>t. jsonSchemaToGeminiSchema s
                  = Inl (Error (''Unsupported JSON Schema type: '' @ typeToString t)))"
proof -
  have n: "jsonSchemaToGeminiSchema n
           = Inl (Error (''Unsupported JSON Schema type: '' @ typeToString (type n)))"
    using assms(2) by (rule unrecognized_node)
  from nested_failure [OF assms(1) n] obtain e' where e': "jsonSchemaToGeminiSchema s = Inl e'" ..
  with translate_error_form(1) [of s] obtain t
    where "e' = Error (''Unsupported JSON Schema type: '' @ typeToString t)" by blast
  with n e' show ?thesis by blast
qed

theorem unsupported_type_rejected_witness:
  "schemaAt nullInsideObject [Property ''tags'', Items]
       = Some (Schema (TypeName ''null'') None None None None)
   \<and> TypeName ''null'' \<notin> recognizedKinds
   \<and> jsonSchemaToGeminiSchema (Schema (TypeName ''null'') None None None None)
       = Inl (Error ''Unsupported JSON Schema type: null'')
   \<and> jsonSchemaToGeminiSchema nullInsideObject
       = Inl (Error ''Unsupported JSON Schema type: null'')"
proof -
  have at: "schemaAt nullInsideObject [Property ''tags'', Items]
       = Some (Schema (TypeName ''null'') None None None None)"
    by (simp add: nullInsideObject_def)
  have ty: "type (Schema (TypeName ''null'') None None None None) \<notin> recognizedKinds"
    by (simp add: recognizedKinds_def)
  have whole: "jsonSchemaToGeminiSchema nullInsideObject
       = Inl (Error ''Unsupported JSON Schema type: null'')"
    by (simp add: nullInsideObject_def stringSchema_def jsonSchemaToGeminiSchema.simps entries_simps)
  from unsupported_type_rejected [OF at ty] at ty whole show ?thesis by simp
qed

section \<open>Object nodes\<close>

text \<open>
  C4 (as the code has it). For an object node (its \<^verbatim>\<open>properties\<close> present and, as in any
  JavaScript object, with distinct keys) that has no property named \<^verbatim>\<open>__proto__\<close>, the
  translator returns exactly the target object nodes whose properties are the source's
  properties entry by entry, each with its key and the translation of its value, in the
  order \<^verbatim>\<open>Object.entries\<close> reports the source's properties (the keys that are array indices
  first, in ascending numeric order, then the other keys in insertion order), and whose
  \<^verbatim>\<open>required\<close> is the source's, or the empty list when the source has none. The target
  properties are reported in the order in which they were created.
\<close>

theorem object_node_translation:
  assumes "type s = TypeName ''object''" and "properties s = Some ps"
    and "distinct (map fst ps)" and "''__proto__'' \<notin> set (map fst ps)"
  shows "(jsonSchemaToGeminiSchema s = Inr g \<longleftrightarrow>
           (\<exists>out. list_all2 translatesTo (Object_entries ps) out \<and>
              g = ObjectSchema OBJECT out (case required s of None \<Rightarrow> [] | Some r \<Rightarrow> r)))
         \<and> (\<forall>out. list_all2 translatesTo (Object_entries ps) out \<longrightarrow>
               map fst out = map fst (Object_entries ps) \<and> Object_entries out = out)"
proof (intro conjI allI impI)
  from assms(4) have np: "''__proto__'' \<notin> fst ` set ps" by simp
  show "jsonSchemaToGeminiSchema s = Inr g \<longleftrightarrow>
           (\<exists>out. list_all2 translatesTo (Object_entries ps) out \<and>
              g = ObjectSchema OBJECT out (case required s of None \<Rightarrow> [] | Some r \<Rightarrow> r))"
    by (rule translate_object [OF assms(1,2,3) np])
next
  fix out assume "list_all2 translatesTo (Object_entries ps) out"
  then show "map fst out = map fst (Object_entries ps)" by (rule translatesTo_keys)
next
  fix out assume "list_all2 translatesTo (Object_entries ps) out"
  then have "map fst out = map fst (Object_entries ps)" by (rule translatesTo_keys)
  then show "Object_entries out = out" by (rule Object_entries_same_keys)
qed

theorem object_node_translation_witness:
  "type personSchema = TypeName ''object''
   \<and> distinct (map fst (the (properties personSchema)))
   \<and> ''__proto__'' \<notin> set (map fst (the (properties personSchema)))
   \<and> jsonSchemaToGeminiSchema personSchema
       = Inr (ObjectSchema OBJECT [(''name'', TypeSchema STRING), (''age'', TypeSchema NUMBER)]
                [''name'', ''age''])
   \<and> jsonSchemaToGeminiSchema
         (Schema (TypeName ''object'') (Some [(''name'', stringSchema)]) None None None)
       = Inr (ObjectSchema OBJECT [(''name'', TypeSchema STRING)] [])
   \<and> jsonSchemaToGeminiSchema numberedProperties
       = Inr (ObjectSchema OBJECT
                [(''1'', TypeSchema NUMBER), (''2'', TypeSchema BOOLEAN),
                 (''b'', TypeSchema STRING)] [])"
proof -
  let ?ps = "[(''name'', stringSchema),
              (''age'', Schema (TypeName ''integer'') None None None None)]"
  let ?out = "[(''name'', TypeSchema STRING), (''age'', TypeSchema NUMBER)]"
  have a1: "type personSchema = TypeName ''object''" by (simp add: personSchema_def)
  have a2: "properties personSchema = Some ?ps" by (simp add: personSchema_def)
  have a3: "distinct (map fst ?ps)" by simp
  have a4: "''__proto__'' \<notin> set (map fst ?ps)" by simp
  have l: "list_all2 translatesTo (Object_entries ?ps) ?out"
    by (simp add: translatesTo_def stringSchema_def jsonSchemaToGeminiSchema.simps entries_simps)
  have r: "required personSchema = Some [''name'', ''age'']" by (simp add: personSchema_def)
  have p: "jsonSchemaToGeminiSchema personSchema = Inr (ObjectSchema OBJECT ?out [''name'', ''age''])"
    using object_node_translation [OF a1 a2 a3 a4,
        of "ObjectSchema OBJECT ?out [''name'', ''age'']"] l r
    by auto
  let ?s = "Schema (TypeName ''object'') (Some [(''name'', stringSchema)]) None None None"
  have l': "list_all2 translatesTo (Object_entries [(''name'', stringSchema)])
      [(''name'', TypeSchema STRING)]"
    by (simp add: translatesTo_def stringSchema_def jsonSchemaToGeminiSchema.simps entries_simps)
  have q: "jsonSchemaToGeminiSchema ?s = Inr (ObjectSchema OBJECT [(''name'', TypeSchema STRING)] [])"
    using object_node_translation [of ?s "[(''name'', stringSchema)]"
        "ObjectSchema OBJECT [(''name'', TypeSchema STRING)] []"] l'
    by auto
  let ?nps = "[(''b'', stringSchema),
               (''2'', Schema (TypeName ''boolean'') None None None None),
               (''1'', Schema (TypeName ''number'') None None None None)]"
  let ?nout = "[(''1'', TypeSchema NUMBER), (''2'', TypeSchema BOOLEAN),
                (''b'', TypeSchema STRING)]"
  have n1: "type numberedProperties = TypeName ''object''"
    by (simp add: numberedProperties_def)
  have n2: "properties numberedProperties = Some ?nps" by (simp add: numberedProperties_def)
  have n3: "distinct (map fst ?nps)" by simp
  have n4: "''__proto__'' \<notin> set (map fst ?nps)" by simp
  have nl: "list_all2 translatesTo (Object_entries ?nps) ?nout"
    by (simp add: translatesTo_def stringSchema_def jsonSchemaToGeminiSchema.simps entries_simps)
  have nr: "required numberedProperties = None" by (simp add: numberedProperties_def)
  have n: "jsonSchemaToGeminiSchema numberedProperties = Inr (ObjectSchema OBJECT ?nout [])"
    using object_node_translation [OF n1 n2 n3 n4, of "ObjectSchema OBJECT ?nout []"] nl nr
    by auto
  from a1 a2 a3 a4 p q n show ?thesis by simp
qed

text \<open>
  C4 (as the specification states it) fails on the order and on one key. The properties
  created in the order \<^verbatim>\<open>b\<close>, \<^verbatim>\<open>2\<close>, \<^verbatim>\<open>1\<close> are emitted in the order \<^verbatim>\<open>1\<close>, \<^verbatim>\<open>2\<close>, \<^verbatim>\<open>b\<close>,
  which is not the insertion order; and the property \<^verbatim>\<open>__proto__\<close> is translated and then
  not emitted.
\<close>

theorem properties_not_in_insertion_order:
  "map fst (the (properties numberedProperties)) = [''b'', ''2'', ''1'']
   \<and> jsonSchemaToGeminiSchema numberedProperties
       = Inr (ObjectSchema OBJECT
                [(''1'', TypeSchema NUMBER), (''2'', TypeSchema BOOLEAN),
                 (''b'', TypeSchema STRING)] [])
   \<and> [''1'', ''2'', ''b''] \<noteq> [''b'', ''2'', ''1'']
   \<and> map fst (the (properties protoProperty)) = [''__proto__'', ''a'']
   \<and> jsonSchemaToGeminiSchema protoProperty
       = Inr (ObjectSchema OBJECT [(''a'', TypeSchema STRING)] [])"
  by (simp add: numberedProperties_def protoProperty_def stringSchema_def
      jsonSchemaToGeminiSchema.simps entries_simps)

section \<open>Numeric kinds\<close>

text \<open>
  C2 (as the code has it). The translator sends a \<^verbatim>\<open>number\<close> node and an \<^verbatim>\<open>integer\<close>
  node, whatever their other keys, to the one target kind \<open>NUMBER\<close>: the numeric subtype
  is collapsed, although the target type set has \<open>INTEGER\<close>.
\<close>

theorem numeric_kinds_collapse:
  "jsonSchemaToGeminiSchema (Schema (TypeName ''number'') ps its req alts)
     = Inr (TypeSchema NUMBER)
   \<and> jsonSchemaToGeminiSchema (Schema (TypeName ''integer'') ps its req alts)
     = Inr (TypeSchema NUMBER)"
  by (simp add: jsonSchemaToGeminiSchema.simps)

text \<open>
  C2 (as the specification states it) fails: the integer node and the number node are
  different source nodes with one and the same translation, which is not the target's
  \<open>INTEGER\<close>.
\<close>

theorem numeric_subtype_not_preserved:
  "jsonSchemaToGeminiSchema (Schema (TypeName ''integer'') None None None None)
     = jsonSchemaToGeminiSchema (Schema (TypeName ''number'') None None None None)
   \<and> jsonSchemaToGeminiSchema (Schema (TypeName ''integer'') None None None None)
     \<noteq> Inr (TypeSchema INTEGER)"
  by (simp add: jsonSchemaToGeminiSchema.simps)

section \<open>The requests\<close>

text \<open>
  C8 (as the code has it). The request of the ChatGPT adapter carries one message per given
  message, with the same roles and the same contents in the same order. The request of the
  Gemini adapter carries one prompt string instead: the messages in conversation order,
  each as its upper-cased role, a colon and a space, and its content, with a blank line
  between two messages.
\<close>

theorem messages_in_request:
  "map role (messages (ChatGPTClient_request this_model msgs config)) = map role msgs
   \<and> map content (messages (ChatGPTClient_request this_model msgs config)) = map content msgs
   \<and> (\<forall>params prompt.
          GeminiClient_request this_modelName msgs config = Inr (params, prompt)
          \<longrightarrow> prompt = GeminiClient_prompt msgs)
   \<and> GeminiClient_prompt [msg] = toUpperCase (roleString (role msg)) @ '': '' @ content msg
   \<and> (earlier \<noteq> [] \<and> later \<noteq> [] \<longrightarrow>
        GeminiClient_prompt (earlier @ later)
          = GeminiClient_prompt earlier @ ''\<newline>\<newline>'' @ GeminiClient_prompt later)"
proof (intro conjI allI impI)
  show "map role (messages (ChatGPTClient_request this_model msgs config)) = map role msgs"
    by (simp add: ChatGPTClient_request_def openAIMessages_def comp_def)
  show "map content (messages (ChatGPTClient_request this_model msgs config))
      = map content msgs"
    by (simp add: ChatGPTClient_request_def openAIMessages_def comp_def)
  show "GeminiClient_prompt [msg] = toUpperCase (roleString (role msg)) @ '': '' @ content msg"
    by (simp add: GeminiClient_prompt_def)
next
  fix params prompt
  assume "GeminiClient_request this_modelName msgs config = Inr (params, prompt)"
  then show "prompt = GeminiClient_prompt msgs"
    by (auto simp: GeminiClient_request_def split: sum.splits)
next
  assume "earlier \<noteq> [] \<and> later \<noteq> []"
  then show "GeminiClient_prompt (earlier @ later)
      = GeminiClient_prompt earlier @ ''\<newline>\<newline>'' @ GeminiClient_prompt later"
    by (simp add: GeminiClient_prompt_def join_append)
qed

theorem messages_in_request_witness:
  "messages (ChatGPTClient_request ''gpt-4o-2024-08-06'' bobMessages personConfig) = bobMessages
   \<and> GeminiClient_request ''gemini-2.0-flash-exp''
        (\<lparr>role = system, content = ''Be brief''\<rparr> # bobMessages) personConfig
      = Inr (\<lparr>gemini_model = ''gemini-2.0-flash-exp'',
               generationConfig =
                 \<lparr>responseMimeType = ''application/json'',
                  responseSchema =
                    ObjectSchema OBJECT
                      [(''name'', TypeSchema STRING), (''age'', TypeSchema NUMBER)]
                      [''name'', ''age'']\<rparr>\<rparr>,
             ''SYSTEM: Be brief\<newline>\<newline>USER: Bob is 42'')"
proof -
  let ?sys = "\<lparr>role = system, content = ''Be brief''\<rparr>"
  let ?g = "ObjectSchema OBJECT
              [(''name'', TypeSchema STRING), (''age'', TypeSchema NUMBER)] [''name'', ''age'']"
  let ?params = "\<lparr>gemini_model = ''gemini-2.0-flash-exp'',
               generationConfig =
                 \<lparr>responseMimeType = ''application/json'', responseSchema = ?g\<rparr>\<rparr>"
  note fact = messages_in_request [of "''gpt-4o-2024-08-06''" bobMessages personConfig
      "''gemini-2.0-flash-exp''" "\<lparr>role = user, content = ''Bob is 42''\<rparr>"
      "[?sys]" bobMessages]
  from fact have "messages (ChatGPTClient_request ''gpt-4o-2024-08-06'' bobMessages personConfig)
      = bobMessages"
    by (simp add: bobMessages_def ChatGPTClient_request_def openAIMessages_def)
  moreover
  from fact have "GeminiClient_prompt ([?sys] @ bobMessages)
      = ''SYSTEM: Be brief\<newline>\<newline>USER: Bob is 42''"
    by (simp add: bobMessages_def toUpperCase_roles GeminiClient_prompt_def)
  then have "GeminiClient_request ''gemini-2.0-flash-exp'' (?sys # bobMessages) personConfig
      = Inr (?params, ''SYSTEM: Be brief\<newline>\<newline>USER: Bob is 42'')"
    by (simp add: GeminiClient_request_def personConfig_def personSchema_def stringSchema_def
        jsonSchemaToGeminiSchema.simps entries_simps)
  ultimately show ?thesis by simp
qed

text \<open>
  C8 (as the specification states it) fails for the Gemini adapter: the request does not
  carry the role-tagged messages, only the prompt, and one message whose content holds a
  blank line and a role prefix builds the very prompt of two messages.
\<close>

theorem gemini_prompt_merges_messages:
  "GeminiClient_prompt [\<lparr>role = user, content = ''a\<newline>\<newline>USER: b''\<rparr>]
     = GeminiClient_prompt [\<lparr>role = user, content = ''a''\<rparr>, \<lparr>role = user, content = ''b''\<rparr>]
   \<and> [\<lparr>role = user, content = ''a\<newline>\<newline>USER: b''\<rparr>]
     \<noteq> [\<lparr>role = user, content = ''a''\<rparr>, \<lparr>role = user, content = ''b''\<rparr>]
   \<and> GeminiClient_prompt [\<lparr>role = user, content = ''a''\<rparr>, \<lparr>role = user, content = ''b''\<rparr>]
     = ''USER: a\<newline>\<newline>USER: b''"
  by (simp add: GeminiClient_prompt_def toUpperCase_roles)

text \<open>
  C10. The request either adapter builds does not depend on \<^verbatim>\<open>config.schemaDescription\<close>,
  and the request of the Gemini adapter does not depend on \<^verbatim>\<open>config.schemaName\<close> either;
  so neither does the outcome of the call.
\<close>

theorem request_ignores_description:
  "ChatGPTClient_request this_model msgs (config\<lparr>schemaDescription := d\<rparr>)
     = ChatGPTClient_request this_model msgs config
   \<and> ChatGPTClient_chatWithStructuredOutput create JSON_parse this_model msgs
        (config\<lparr>schemaDescription := d\<rparr>)
     = ChatGPTClient_chatWithStructuredOutput create JSON_parse this_model msgs config
   \<and> GeminiClient_request this_modelName msgs (config\<lparr>schemaDescription := d, schemaName := n\<rparr>)
     = GeminiClient_request this_modelName msgs config
   \<and> GeminiClient_chatWithStructuredOutput generateContent response_text JSON_parse'
        this_modelName msgs (config\<lparr>schemaDescription := d, schemaName := n\<rparr>)
     = GeminiClient_chatWithStructuredOutput generateContent response_text JSON_parse'
        this_modelName msgs config"
  by (simp add: ChatGPTClient_request_def ChatGPTClient_chatWithStructuredOutput_def
      GeminiClient_request_def GeminiClient_chatWithStructuredOutput_def)

section \<open>The outcome of a call\<close>

text \<open>
  C9. A call of either adapter succeeds exactly when the backend returned a payload whose
  text \<^verbatim>\<open>JSON.parse\<close> decodes (for the ChatGPT adapter: the first choice has a message
  with no refusal and a non-empty content), and it then returns the envelope whose
  \<^verbatim>\<open>data\<close> is the decoded value and whose \<^verbatim>\<open>rawResponse\<close> is the whole backend payload.
\<close>

theorem success_envelope:
  "(ChatGPTClient_chatWithStructuredOutput create JSON_parse this_model msgs config = Inr env
     \<longleftrightarrow> (\<exists>completion m text v.
            create (ChatGPTClient_request this_model msgs config) = Inr completion
          \<and> firstMessage completion = Some m
          \<and> \<not> truthy (message_refusal m)
          \<and> message_content m = Some text \<and> text \<noteq> []
          \<and> JSON_parse text = Inr v
          \<and> env = \<lparr>data = v, rawResponse = completion\<rparr>))
   \<and> (GeminiClient_chatWithStructuredOutput generateContent response_text JSON_parse'
         this_modelName msgs' config' = Inr env'
     \<longleftrightarrow> (\<exists>params prompt result text v.
            GeminiClient_request this_modelName msgs' config' = Inr (params, prompt)
          \<and> generateContent params prompt = Inr result
          \<and> response_text result = Inr text
          \<and> JSON_parse' text = Inr v
          \<and> env' = \<lparr>data = v, rawResponse = result\<rparr>))"
  by (rule conjI [OF ChatGPT_outcome Gemini_outcome])

theorem success_envelope_witness:
  "stubParse bobText = Inr bobData
   \<and> ChatGPTClient_chatWithStructuredOutput
        (openAIReturning (completionWith (Some bobText) None)) stubParse
        ''gpt-4o-2024-08-06'' bobMessages personConfig
      = Inr \<lparr>data = bobData, rawResponse = completionWith (Some bobText) None\<rparr>
   \<and> GeminiClient_chatWithStructuredOutput (geminiReturning bobText) textOf stubParse
        ''gemini-2.0-flash-exp'' bobMessages personConfig
      = Inr \<lparr>data = bobData, rawResponse = bobText\<rparr>"
proof -
  let ?completion = "completionWith (Some bobText) None"
  let ?g = "ObjectSchema OBJECT
              [(''name'', TypeSchema STRING), (''age'', TypeSchema NUMBER)] [''name'', ''age'']"
  let ?params = "\<lparr>gemini_model = ''gemini-2.0-flash-exp'',
               generationConfig =
                 \<lparr>responseMimeType = ''application/json'', responseSchema = ?g\<rparr>\<rparr>"
  have p: "stubParse bobText = Inr bobData" by (simp add: stubParse_def)
  have ne: "bobText \<noteq> []" by (simp add: bobText_def)
  have req: "GeminiClient_request ''gemini-2.0-flash-exp'' bobMessages personConfig
        = Inr (?params, GeminiClient_prompt bobMessages)"
    by (simp add: GeminiClient_request_def personConfig_def personSchema_def stringSchema_def
        jsonSchemaToGeminiSchema.simps entries_simps)
  have open_ai: "\<exists>completion m text v.
        openAIReturning ?completion
          (ChatGPTClient_request ''gpt-4o-2024-08-06'' bobMessages personConfig)
          = Inr completion
      \<and> firstMessage completion = Some m
      \<and> \<not> truthy (message_refusal m)
      \<and> message_content m = Some text \<and> text \<noteq> []
      \<and> stubParse text = Inr v
      \<and> \<lparr>data = bobData, rawResponse = ?completion\<rparr> = \<lparr>data = v, rawResponse = completion\<rparr>"
    apply (rule exI [of _ ?completion])
    apply (rule exI [of _ "ChatCompletionMessage (Some bobText) None"])
    apply (rule exI [of _ bobText])
    apply (rule exI [of _ bobData])
    using p ne apply (simp add: openAIReturning_def firstMessage_def completionWith_def)
    done
  have gemini: "\<exists>params prompt result text v.
        GeminiClient_request ''gemini-2.0-flash-exp'' bobMessages personConfig
          = Inr (params, prompt)
      \<and> geminiReturning bobText params prompt = Inr result
      \<and> textOf result = Inr text
      \<and> stubParse text = Inr v
      \<and> \<lparr>data = bobData, rawResponse = bobText\<rparr> = \<lparr>data = v, rawResponse = result\<rparr>"
    apply (rule exI [of _ ?params])
    apply (rule exI [of _ "GeminiClient_prompt bobMessages"])
    apply (rule exI [of _ bobText])
    apply (rule exI [of _ bobText])
    apply (rule exI [of _ bobData])
    using p req apply (simp add: geminiReturning_def textOf_def)
    done
  note fact = success_envelope [where create = "openAIReturning ?completion"
      and JSON_parse = stubParse and this_model = "''gpt-4o-2024-08-06''"
      and msgs = bobMessages and config = personConfig
      and env = "\<lparr>data = bobData, rawResponse = ?completion\<rparr>"
      and generateContent = "geminiReturning bobText" and response_text = textOf
      and JSON_parse' = stubParse and this_modelName = "''gemini-2.0-flash-exp''"
      and msgs' = bobMessages and config' = personConfig
      and env' = "\<lparr>data = bobData, rawResponse = bobText\<rparr>"]
  from fact [THEN conjunct1, THEN iffD2, OF open_ai]
    fact [THEN conjunct2, THEN iffD2, OF gemini] p
  show ?thesis by (intro conjI)
qed

text \<open>
  C5, at the payload \<^verbatim>\<open>not-json\<close> and at any other text \<^verbatim>\<open>JSON.parse\<close> rejects. The Gemini
  adapter fails with an error whose message ends in the raw text. The ChatGPT adapter
  does not catch what \<^verbatim>\<open>JSON.parse\<close> throws: the call fails with the engine's
  \<^verbatim>\<open>SyntaxError\<close> as it is, whatever its message.
\<close>

theorem parse_failure_surfacing:
  assumes "JSON_parse text = Inl engineMessage" and "text \<noteq> []"
    and "create (ChatGPTClient_request this_model msgs config) = Inr completion"
    and "firstMessage completion = Some (ChatCompletionMessage (Some text) refusal)"
    and "\<not> truthy refusal"
    and "GeminiClient_request this_modelName msgs' config' = Inr (params, prompt)"
    and "generateContent params prompt = Inr result"
    and "response_text result = Inr text"
  shows "GeminiClient_chatWithStructuredOutput generateContent response_text JSON_parse
           this_modelName msgs' config'
           = Inl (Error (''Failed to parse Gemini JSON response: '' @ text))
       \<and> ChatGPTClient_chatWithStructuredOutput create JSON_parse this_model msgs config
           = Inl (SyntaxError engineMessage)"
proof
  show "GeminiClient_chatWithStructuredOutput generateContent response_text JSON_parse
           this_modelName msgs' config'
           = Inl (Error (''Failed to parse Gemini JSON response: '' @ text))"
    using Gemini_decodes_text [where generateContent = generateContent
        and response_text = response_text and JSON_parse = JSON_parse, OF assms(6,7,8)]
      assms(1)
    by simp
  show "ChatGPTClient_chatWithStructuredOutput create JSON_parse this_model msgs config
           = Inl (SyntaxError engineMessage)"
    using ChatGPT_decodes_content [where create = create and JSON_parse = JSON_parse,
        OF assms(3,4,5,2)] assms(1)
    by simp
qed

theorem parse_failure_surfacing_witness:
  "stubParse ''not-json'' = Inl ''Unexpected token''
   \<and> GeminiClient_chatWithStructuredOutput (geminiReturning ''not-json'') textOf stubParse
        ''gemini-2.0-flash-exp'' bobMessages personConfig
      = Inl (Error ''Failed to parse Gemini JSON response: not-json'')
   \<and> ChatGPTClient_chatWithStructuredOutput
        (openAIReturning (completionWith (Some ''not-json'') None)) stubParse
        ''gpt-4o-2024-08-06'' bobMessages personConfig
      = Inl (SyntaxError ''Unexpected token'')"
proof -
  let ?g = "ObjectSchema OBJECT
              [(''name'', TypeSchema STRING), (''age'', TypeSchema NUMBER)] [''name'', ''age'']"
  let ?params = "\<lparr>gemini_model = ''gemini-2.0-flash-exp'',
               generationConfig =
                 \<lparr>responseMimeType = ''application/json'', responseSchema = ?g\<rparr>\<rparr>"
  have p: "stubParse ''not-json'' = Inl ''Unexpected token''"
    by (simp add: stubParse_def bobText_def)
  have ne: "''not-json'' \<noteq> []" by simp
  have c: "openAIReturning (completionWith (Some ''not-json'') None)
             (ChatGPTClient_request ''gpt-4o-2024-08-06'' bobMessages personConfig)
           = Inr (completionWith (Some ''not-json'') None)"
    by (simp add: openAIReturning_def)
  have f: "firstMessage (completionWith (Some ''not-json'') None)
           = Some (ChatCompletionMessage (Some ''not-json'') None)"
    by (simp add: firstMessage_def completionWith_def)
  have r: "\<not> truthy None" by simp
  have req: "GeminiClient_request ''gemini-2.0-flash-exp'' bobMessages personConfig
        = Inr (?params, GeminiClient_prompt bobMessages)"
    by (simp add: GeminiClient_request_def personConfig_def personSchema_def stringSchema_def
        jsonSchemaToGeminiSchema.simps entries_simps)
  have g: "geminiReturning ''not-json'' ?params (GeminiClient_prompt bobMessages)
        = Inr ''not-json''"
    by (simp add: geminiReturning_def)
  have t: "textOf ''not-json'' = Inr ''not-json''" by (simp add: textOf_def)
  from parse_failure_surfacing [where JSON_parse = stubParse
      and create = "openAIReturning (completionWith (Some ''not-json'') None)"
      and generateContent = "geminiReturning ''not-json''" and response_text = textOf,
      OF p ne c f r req g t] p
  show ?thesis by simp
qed



text \<open>
  C7, at an empty payload. The ChatGPT adapter fails with its own errors when the
  completion has no first message, and when the message has no refusal and a null or empty
  content. The Gemini adapter has no such check: the empty text goes to \<^verbatim>\<open>JSON.parse\<close>,
  which rejects it, and the call fails as a parse failure.
\<close>

theorem empty_response_handling:
  "(create (ChatGPTClient_request this_model msgs config) = Inr completion
      \<and> firstMessage completion = None
    \<longrightarrow> ChatGPTClient_chatWithStructuredOutput create JSON_parse this_model msgs config
          = Inl (Error ''No response from OpenAI''))
   \<and> (create (ChatGPTClient_request this_model msgs config) = Inr completion
      \<and> firstMessage completion = Some m
      \<and> \<not> truthy (message_refusal m) \<and> \<not> truthy (message_content m)
    \<longrightarrow> ChatGPTClient_chatWithStructuredOutput create JSON_parse this_model msgs config
          = Inl (Error ''No content in OpenAI response''))
   \<and> (GeminiClient_request this_modelName msgs' config' = Inr (params, prompt)
      \<and> generateContent params prompt = Inr result
      \<and> response_text result = Inr []
      \<and> JSON_parse' [] = Inl engineMessage
    \<longrightarrow> GeminiClient_chatWithStructuredOutput generateContent response_text JSON_parse'
           this_modelName msgs' config'
          = Inl (Error ''Failed to parse Gemini JSON response: ''))"
  by (simp add: GeminiClient_chatWithStructuredOutput_def
      ChatGPTClient_chatWithStructuredOutput_def)

theorem empty_response_handling_witness:
  "ChatGPTClient_chatWithStructuredOutput (openAIReturning \<lparr>choices = []\<rparr>) stubParse
        ''gpt-4o-2024-08-06'' bobMessages personConfig
      = Inl (Error ''No response from OpenAI'')
   \<and> ChatGPTClient_chatWithStructuredOutput
        (openAIReturning (completionWith (Some []) None)) stubParse
        ''gpt-4o-2024-08-06'' bobMessages personConfig
      = Inl (Error ''No content in OpenAI response'')
   \<and> GeminiClient_chatWithStructuredOutput (geminiReturning []) textOf stubParse
        ''gemini-2.0-flash-exp'' bobMessages personConfig
      = Inl (Error ''Failed to parse Gemini JSON response: '')"
proof -
  let ?g = "ObjectSchema OBJECT
              [(''name'', TypeSchema STRING), (''age'', TypeSchema NUMBER)] [''name'', ''age'']"
  let ?params = "\<lparr>gemini_model = ''gemini-2.0-flash-exp'',
               generationConfig =
                 \<lparr>responseMimeType = ''application/json'', responseSchema = ?g\<rparr>\<rparr>"
  let ?empty = "completionWith (Some []) None"
  have p: "stubParse [] = Inl ''Unexpected token''"
    by (simp add: stubParse_def bobText_def)
  have req: "GeminiClient_request ''gemini-2.0-flash-exp'' bobMessages personConfig
        = Inr (?params, GeminiClient_prompt bobMessages)"
    by (simp add: GeminiClient_request_def personConfig_def personSchema_def stringSchema_def
        jsonSchemaToGeminiSchema.simps entries_simps)
  have g: "geminiReturning [] ?params (GeminiClient_prompt bobMessages) = Inr []"
    by (simp add: geminiReturning_def)
  have t: "textOf [] = Inr []" by (simp add: textOf_def)
  have n1: "openAIReturning \<lparr>choices = []\<rparr>
              (ChatGPTClient_request ''gpt-4o-2024-08-06'' bobMessages personConfig)
            = Inr \<lparr>choices = []\<rparr>"
    by (simp add: openAIReturning_def)
  have n2: "firstMessage \<lparr>choices = []\<rparr> = None" by (simp add: firstMessage_def)
  have e1: "openAIReturning ?empty
              (ChatGPTClient_request ''gpt-4o-2024-08-06'' bobMessages personConfig)
            = Inr ?empty"
    by (simp add: openAIReturning_def)
  have e2: "firstMessage ?empty = Some (ChatCompletionMessage (Some []) None)"
    by (simp add: firstMessage_def completionWith_def)
  have e3: "\<not> truthy (message_refusal (ChatCompletionMessage (Some []) None))
      \<and> \<not> truthy (message_content (ChatCompletionMessage (Some []) None))"
    by simp
  note none = empty_response_handling [where create = "openAIReturning \<lparr>choices = []\<rparr>"
      and this_model = "''gpt-4o-2024-08-06''" and msgs = bobMessages and config = personConfig
      and completion = "\<lparr>choices = []\<rparr>" and JSON_parse = stubParse
      and m = "ChatCompletionMessage (Some []) None"
      and this_modelName = "''gemini-2.0-flash-exp''"
      and msgs' = bobMessages and config' = personConfig and params = ?params
      and prompt = "GeminiClient_prompt bobMessages" and generateContent = "geminiReturning []"
      and result = "[]" and response_text = textOf and JSON_parse' = stubParse
      and engineMessage = "''Unexpected token''"]
  note empty = empty_response_handling [where create = "openAIReturning ?empty"
      and this_model = "''gpt-4o-2024-08-06''" and msgs = bobMessages and config = personConfig
      and completion = ?empty and JSON_parse = stubParse
      and m = "ChatCompletionMessage (Some []) None"
      and this_modelName = "''gemini-2.0-flash-exp''"
      and msgs' = bobMessages and config' = personConfig and params = ?params
      and prompt = "GeminiClient_prompt bobMessages" and generateContent = "geminiReturning []"
      and result = "[]" and response_text = textOf and JSON_parse' = stubParse
      and engineMessage = "''Unexpected token''"]
  from none n1 n2 have a: "ChatGPTClient_chatWithStructuredOutput
        (openAIReturning \<lparr>choices = []\<rparr>) stubParse
        ''gpt-4o-2024-08-06'' bobMessages personConfig
      = Inl (Error ''No response from OpenAI'')"
    by blast
  from empty e1 e2 e3 have b: "ChatGPTClient_chatWithStructuredOutput
        (openAIReturning ?empty) stubParse
        ''gpt-4o-2024-08-06'' bobMessages personConfig
      = Inl (Error ''No content in OpenAI response'')"
    by blast
  from empty req g t p have c: "GeminiClient_chatWithStructuredOutput (geminiReturning [])
        textOf stubParse ''gemini-2.0-flash-exp'' bobMessages personConfig
      = Inl (Error ''Failed to parse Gemini JSON response: '')"
    by blast
  from a b c show ?thesis by simp
qed

end
